theory Spec2Isabelle
  imports Complex_Main "HOL-Library.Sublist"
begin

section \<open>Component loader: \<open>ComponentManager\<close> (112energie-critical/src/scripts/components.js)\<close>

text \<open>
  The loader fetches an HTML fragment, caches its text by path, assigns it to the
  \<open>innerHTML\<close> of a container and then walks the \<open>script\<close>, \<open>style\<close> and
  \<open>link\<close> elements of the container. The model keeps a fragment as the list of its
  elements in document order, which is what \<open>querySelectorAll\<close> enumerates; an
  element that is neither a script, a link nor a style is a \<open>Block_el\<close> with its
  class and its text. Attribute values are assumed free of quote characters, so that
  the attribute selectors the code builds by string interpolation are well formed.
\<close>

datatype node =
    Script_el "string option" string
  | Link_el string "string option"
  | Style_el "string option" string
  | Block_el string string

type_synonym html = "node list"

record container =
  elem_id :: string
  innerHTML :: html

text \<open>
  What the page cannot decide is a parameter: the answer of the server to a GET of a
  path (a network failure with the browser's message, or a response with a status and
  a body), whether an external script loads (\<open>onload\<close>) or not (\<open>onerror\<close>),
  and the resolution of a URL attribute against the document base, which is what the
  \<open>src\<close> and \<open>href\<close> properties of an element return.
\<close>

datatype fetch_result = Network_failure string | Response nat html

record env =
  net :: "string \<Rightarrow> fetch_result"
  script_loads :: "string \<Rightarrow> bool"
  resolve_url :: "string \<Rightarrow> string"

text \<open>
  The state of the page as far as the loader touches it: the two collections of the
  \<open>ComponentManager\<close>, the containers of the document (a container is referred to by
  its position), the children of \<open>document.head\<close>, and four traces: the GET requests
  issued, the assignments \<open>container.innerHTML = html\<close> of line 98, the
  \<open>componentLoaded\<close> events dispatched and the inline scripts executed.
\<close>

record cm_state =
  loadedComponents :: "string set"
  componentCache :: "string \<rightharpoonup> html"
  containers :: "container list"
  head_els :: "node list"
  fetch_log :: "string list"
  injections :: "(nat \<times> string) list"
  events :: "(nat \<times> string) list"
  inline_runs :: "string list"

text \<open>Decimal rendering of a status code inside a template literal.\<close>

fun show_nat :: "nat \<Rightarrow> string" where
  "show_nat n =
     (if n < 10 then [char_of (48 + n)]
      else show_nat (n div 10) @ [char_of (48 + n mod 10)])"

declare show_nat.simps [simp del]

text \<open>\<open>response.ok\<close>: the status is in the range 200 to 299.\<close>

definition response_ok :: "nat \<Rightarrow> bool" where
  "response_ok status = (200 \<le> status \<and> status \<le> 299)"

text \<open>
  Line 70: \<open>`${componentPath}-${container.id || Math.random()}`\<close>. The random
  number, as a string, is an argument \<open>rnd\<close>; it is only read when the id is empty.
\<close>

definition componentId :: "string \<Rightarrow> string \<Rightarrow> string \<Rightarrow> string" where
  "componentId componentPath cid rnd =
     componentPath @ ''-'' @ (if cid = [] then rnd else cid)"

definition set_innerHTML :: "nat \<Rightarrow> html \<Rightarrow> cm_state \<Rightarrow> cm_state" where
  "set_innerHTML c h s =
     s\<lparr>containers := (containers s)[c := (containers s ! c)\<lparr>innerHTML := h\<rparr>]\<rparr>"

definition showLoadingState :: "nat \<Rightarrow> cm_state \<Rightarrow> cm_state" where
  "showLoadingState c s = set_innerHTML c [Block_el ''component-loading'' ''Laden...''] s"

definition showErrorState :: "nat \<Rightarrow> string \<Rightarrow> cm_state \<Rightarrow> cm_state" where
  "showErrorState c message s = set_innerHTML c [Block_el ''component-error'' message] s"

text \<open>
  \<open>document.querySelector\<close> searches the whole document: the head and every
  container, the one just filled included.
\<close>

definition document_nodes :: "cm_state \<Rightarrow> node list" where
  "document_nodes s = head_els s @ concat (map innerHTML (containers s))"

fun script_has_src :: "string \<Rightarrow> node \<Rightarrow> bool" where
  "script_has_src u (Script_el a t) = (a = Some u)"
| "script_has_src u n = False"

fun link_has_href :: "string \<Rightarrow> node \<Rightarrow> bool" where
  "link_has_href u (Link_el r a) = (a = Some u)"
| "link_has_href u n = False"

fun style_has_component :: "string \<Rightarrow> node \<Rightarrow> bool" where
  "style_has_component u (Style_el a t) = (a = Some u)"
| "style_has_component u n = False"

text \<open>
  \<open>loadExternalScript\<close> (lines 157 to 172): resolves at once when a script with
  this \<open>src\<close> attribute is in the document; otherwise appends a new script element
  to the head and resolves or rejects with its \<open>onload\<close> or \<open>onerror\<close>. The
  boolean is False for a rejection.
\<close>

definition loadExternalScript :: "env \<Rightarrow> string \<Rightarrow> cm_state \<Rightarrow> bool \<times> cm_state" where
  "loadExternalScript e src s =
     (if list_ex (script_has_src src) (document_nodes s) then (True, s)
      else (script_loads e src, s\<lparr>head_els := head_els s @ [Script_el (Some src) []]\<rparr>))"

text \<open>
  \<open>executeInlineScript\<close> (lines 174 to 183): the script element is appended to the
  head and removed again, so the head is as before; the execution is recorded.
\<close>

definition executeInlineScript :: "string \<Rightarrow> cm_state \<Rightarrow> cm_state" where
  "executeInlineScript scriptContent s = s\<lparr>inline_runs := inline_runs s @ [scriptContent]\<rparr>"

text \<open>The \<open>src\<close> property of a script element: empty without the attribute.\<close>

definition src_property :: "env \<Rightarrow> string option \<Rightarrow> string" where
  "src_property e a = (case a of None \<Rightarrow> [] | Some v \<Rightarrow> if v = [] then [] else resolve_url e v)"

text \<open>
  \<open>initializeComponentScripts\<close> (lines 143 to 155), as a loop over the elements of
  the container: the first rejected script ends it.
\<close>

fun initializeScripts :: "env \<Rightarrow> node list \<Rightarrow> cm_state \<Rightarrow> bool \<times> cm_state" where
  "initializeScripts e [] s = (True, s)"
| "initializeScripts e (Script_el a t # ns) s =
     (if src_property e a \<noteq> [] then
        (case loadExternalScript e (src_property e a) s of
           (True, s') \<Rightarrow> initializeScripts e ns s'
         | (False, s') \<Rightarrow> (False, s'))
      else initializeScripts e ns (executeInlineScript t s))"
| "initializeScripts e (n # ns) s = initializeScripts e ns s"

definition initializeComponentScripts :: "env \<Rightarrow> nat \<Rightarrow> cm_state \<Rightarrow> bool \<times> cm_state" where
  "initializeComponentScripts e c s = initializeScripts e (innerHTML (containers s ! c)) s"

text \<open>
  \<open>initializeComponentStyles\<close> (lines 185 to 202). A link is looked up by its
  \<open>href\<close> property, a style by \<open>dataset.component\<close>, which reads
  \<open>undefined\<close> in the selector when the attribute is missing; what is appended is a
  clone, with the attributes of the element as they are written.
\<close>

definition href_property :: "env \<Rightarrow> string option \<Rightarrow> string" where
  "href_property e a = (case a of None \<Rightarrow> [] | Some v \<Rightarrow> resolve_url e v)"

definition dataset_component :: "string option \<Rightarrow> string" where
  "dataset_component a = (case a of None \<Rightarrow> ''undefined'' | Some v \<Rightarrow> v)"

fun initializeStyles :: "env \<Rightarrow> node list \<Rightarrow> cm_state \<Rightarrow> cm_state" where
  "initializeStyles e [] s = s"
| "initializeStyles e (Link_el r a # ns) s =
     (if r = ''stylesheet'' then
        (if \<not> list_ex (link_has_href (href_property e a)) (document_nodes s)
         then initializeStyles e ns (s\<lparr>head_els := head_els s @ [Link_el r a]\<rparr>)
         else initializeStyles e ns s)
      else initializeStyles e ns s)"
| "initializeStyles e (Style_el a t # ns) s =
     (if \<not> list_ex (style_has_component (dataset_component a)) (document_nodes s)
      then initializeStyles e ns (s\<lparr>head_els := head_els s @ [Style_el a t]\<rparr>)
      else initializeStyles e ns s)"
| "initializeStyles e (n # ns) s = initializeStyles e ns s"

definition initializeComponentStyles :: "env \<Rightarrow> nat \<Rightarrow> cm_state \<Rightarrow> cm_state" where
  "initializeComponentStyles e c s = initializeStyles e (innerHTML (containers s ! c)) s"

text \<open>
  Lines 80 to 95: the cached text, or a GET of the path. A failed request and a
  response that is not ok throw; only an ok response is cached.
\<close>

definition fetch_component :: "env \<Rightarrow> string \<Rightarrow> cm_state \<Rightarrow> (string + html) \<times> cm_state" where
  "fetch_component e componentPath s =
     (case componentCache s componentPath of
        Some h \<Rightarrow> (Inr h, s)
      | None \<Rightarrow>
          (let s1 = s\<lparr>fetch_log := fetch_log s @ [componentPath]\<rparr> in
           case net e componentPath of
             Network_failure m \<Rightarrow> (Inl m, s1)
           | Response status h \<Rightarrow>
               if \<not> response_ok status
               then (Inl (''Failed to load component: '' @ show_nat status), s1)
               else (Inr h, s1\<lparr>componentCache := (componentCache s1)(componentPath \<mapsto> h)\<rparr>)))"

text \<open>
  Lines 97 to 112, after the text is there: \<open>Some message\<close> is the error thrown
  (the rejection of a script carries an event, whose message reads \<open>undefined\<close>).
\<close>

definition install_component ::
  "env \<Rightarrow> nat \<Rightarrow> string \<Rightarrow> string \<Rightarrow> html \<Rightarrow> cm_state \<Rightarrow> string option \<times> cm_state" where
  "install_component e c componentPath cid h s =
     (let s1 = (set_innerHTML c h s)\<lparr>injections := injections s @ [(c, componentPath)]\<rparr> in
      case initializeComponentScripts e c s1 of
        (False, s2) \<Rightarrow> (Some ''undefined'', s2)
      | (True, s2) \<Rightarrow>
          (let s3 = initializeComponentStyles e c s2;
               s4 = s3\<lparr>loadedComponents := insert cid (loadedComponents s3)\<rparr>
           in (None, s4\<lparr>events := events s4 @ [(c, componentPath)]\<rparr>)))"

text \<open>
  The body of the \<open>try\<close> of \<open>loadComponent\<close> (lines 69 to 114); the option
  \<open>showLoading\<close> is \<open>None\<close> when the caller does not give it.
\<close>

definition loadComponent_try ::
  "env \<Rightarrow> cm_state \<Rightarrow> nat \<Rightarrow> string \<Rightarrow> bool option \<Rightarrow> string \<Rightarrow> string option \<times> cm_state" where
  "loadComponent_try e s c componentPath showLoading rnd =
     (let cid = componentId componentPath (elem_id (containers s ! c)) rnd in
      if cid \<in> loadedComponents s then (None, s)
      else
        (let s1 = (if showLoading \<noteq> Some False then showLoadingState c s else s) in
         case fetch_component e componentPath s1 of
           (Inl m, s2) \<Rightarrow> (Some m, s2)
         | (Inr h, s2) \<Rightarrow> install_component e c componentPath cid h s2))"

text \<open>
  \<open>loadComponent\<close> (lines 67 to 120): the \<open>catch\<close> turns every error of the
  body into the error block. A reference that denotes no element stands for a null
  container: reading its id throws inside the \<open>try\<close>, and \<open>showErrorState\<close>
  throws again inside the \<open>catch\<close>, so this error leaves the function (\<open>Inl\<close>).
\<close>

definition loadComponent ::
  "env \<Rightarrow> cm_state \<Rightarrow> nat \<Rightarrow> string \<Rightarrow> bool option \<Rightarrow> string \<Rightarrow> string + cm_state" where
  "loadComponent e s c componentPath showLoading rnd =
     (if length (containers s) \<le> c then Inl ''TypeError''
      else
        (case loadComponent_try e s c componentPath showLoading rnd of
           (None, s') \<Rightarrow> Inr s'
         | (Some m, s') \<Rightarrow> Inr (showErrorState c m s')))"

text \<open>
  \<open>document.querySelector\<close> for the selectors the page uses with \<open>load\<close>, which
  are of the form \<open>#id\<close> (\<open>window.loadComponent\<close>, line 433): the first container
  with that id.
\<close>

fun first_with_id :: "string \<Rightarrow> container list \<Rightarrow> nat \<Rightarrow> nat option" where
  "first_with_id i [] k = None"
| "first_with_id i (c # cs) k = (if elem_id c = i then Some k else first_with_id i cs (Suc k))"

definition querySelector :: "cm_state \<Rightarrow> string \<Rightarrow> nat option" where
  "querySelector s selector =
     (case selector of
        [] \<Rightarrow> None
      | x # i \<Rightarrow> if x = CHR ''#'' \<and> i \<noteq> [] then first_with_id i (containers s) 0 else None)"

text \<open>The public \<open>load\<close> (lines 381 to 388) throws when the container is not found.\<close>

definition load ::
  "env \<Rightarrow> cm_state \<Rightarrow> string \<Rightarrow> string \<Rightarrow> bool option \<Rightarrow> string \<Rightarrow> string + cm_state" where
  "load e s selector componentPath showLoading rnd =
     (case querySelector s selector of
        None \<Rightarrow> Inl (''Container not found: '' @ selector)
      | Some c \<Rightarrow> loadComponent e s c componentPath showLoading rnd)"

text \<open>
  Two predicates for the proofs: the steps that work on the head leave the rest of the
  page alone, and no step of the loader changes the number of containers or their ids.
\<close>

definition head_only :: "cm_state \<Rightarrow> cm_state \<Rightarrow> bool" where
  "head_only s s' =
     (containers s' = containers s \<and> loadedComponents s' = loadedComponents s \<and>
      componentCache s' = componentCache s \<and> fetch_log s' = fetch_log s \<and>
      injections s' = injections s \<and> events s' = events s)"

definition ids_kept :: "cm_state \<Rightarrow> cm_state \<Rightarrow> bool" where
  "ids_kept s s' =
     (length (containers s') = length (containers s) \<and>
      (\<forall>k. elem_id (containers s' ! k) = elem_id (containers s ! k)))"

text \<open>
  A page for the examples: a server that knows \<open>header.html\<close>, a fragment with one
  block and one inline style that has no \<open>data-component\<close> attribute, and answers
  404 to every other path; two empty containers \<open>#header\<close> and \<open>#footer\<close>.
\<close>

definition header_fragment :: html where
  "header_fragment = [Block_el ''nav'' ''menu'', Style_el None ''.nav{}'']"

definition demo_env :: env where
  "demo_env =
     \<lparr>net = (\<lambda>p. if p = ''header.html'' then Response 200 header_fragment else Response 404 []),
      script_loads = (\<lambda>u. True),
      resolve_url = (\<lambda>u. u)\<rparr>"

definition demo_page :: cm_state where
  "demo_page =
     \<lparr>loadedComponents = {}, componentCache = Map.empty,
      containers = [\<lparr>elem_id = ''header'', innerHTML = []\<rparr>, \<lparr>elem_id = ''footer'', innerHTML = []\<rparr>],
      head_els = [], fetch_log = [], injections = [], events = [], inline_runs = []\<rparr>"

text \<open>
  A second server, for a fragment with a stylesheet link written relative to the page;
  the document base is \<open>https://112energie.nl/\<close>.
\<close>

definition link_env :: env where
  "link_env =
     \<lparr>net = (\<lambda>p. Response 200 [Link_el ''stylesheet'' (Some ''css/nav.css'')]),
      script_loads = (\<lambda>u. True),
      resolve_url = (\<lambda>u. ''https://112energie.nl/'' @ u)\<rparr>"

section \<open>Particle effects\<close>

text \<open>
  JavaScript numbers are modelled as real numbers, so the arithmetic below is exact;
  \<open>Math.sin\<close>, \<open>Math.cos\<close> and \<open>Math.sqrt\<close> are the functions of the same name on
  the reals. Each call of \<open>Math.random\<close> is an argument.
\<close>

subsection \<open>\<open>ParticleWave\<close> (src/scripts/components.js, lines 1265 to 1475)\<close>

text \<open>\<open>Math.atan2(y, x)\<close>: the angle of the point \<open>(x, y)\<close>, in \<open>(-pi, pi]\<close>.\<close>

definition atan2 :: "real \<Rightarrow> real \<Rightarrow> real" where
  "atan2 b a =
     (if 0 < a then arctan (b / a)
      else if a < 0 then (if 0 \<le> b then arctan (b / a) + pi else arctan (b / a) - pi)
      else if 0 < b then pi / 2
      else if b < 0 then - (pi / 2)
      else 0)"

text \<open>A particle of the wave: the fields \<open>x\<close>, \<open>y\<close> and \<open>size\<close> carry a prefix here.\<close>

record wave_particle =
  wx :: real
  wy :: real
  baseY :: real
  wsize :: real
  speed :: real
  offset :: real
  originalX :: real

record particle_wave =
  canvas_width :: real
  canvas_height :: real
  centerY :: real
  particles :: "wave_particle list"
  numberOfParticles :: nat
  waveAmplitude :: real
  waveFrequency :: real
  waveSpeed :: real
  time :: real
  mouseX :: real
  mouseY :: real
  mouseRadius :: real
  isActive :: bool

text \<open>
  What the constructor reads from the page, and what it leaves there: the listeners it
  registers, the animation frames it requests, the intersection observer it starts.
\<close>

record window =
  innerWidth :: real
  innerHeight :: real
  has_touch :: bool

record wave_effects =
  listeners :: "string list"
  frames_requested :: nat
  observing :: bool

definition no_effects :: wave_effects where
  "no_effects = \<lparr>listeners = [], frames_requested = 0, observing = False\<rparr>"

text \<open>\<open>resize\<close> (lines 1292 to 1296).\<close>

definition resize :: "window \<Rightarrow> particle_wave \<Rightarrow> particle_wave" where
  "resize win w =
     w\<lparr>canvas_width := innerWidth win, canvas_height := innerHeight win,
       centerY := innerHeight win / 2\<rparr>"

text \<open>
  \<open>createParticles\<close> (lines 1298 to 1313); particle \<open>i\<close> draws the random numbers
  \<open>rs (3 * i)\<close>, \<open>rs (3 * i + 1)\<close> and \<open>rs (3 * i + 2)\<close>.
\<close>

definition createParticle :: "particle_wave \<Rightarrow> (nat \<Rightarrow> real) \<Rightarrow> nat \<Rightarrow> wave_particle" where
  "createParticle w rs i =
     (let spacing = canvas_width w / (real (numberOfParticles w) - 1) in
      \<lparr>wx = real i * spacing,
       wy = centerY w,
       baseY = centerY w,
       wsize = rs (3 * i) * 2 + 1.5,
       speed = rs (3 * i + 1) * 0.3 + 0.3,
       offset = rs (3 * i + 2) * pi * 2,
       originalX = real i * spacing\<rparr>)"

definition createParticles :: "(nat \<Rightarrow> real) \<Rightarrow> particle_wave \<Rightarrow> particle_wave" where
  "createParticles rs w = w\<lparr>particles := map (createParticle w rs) [0..<numberOfParticles w]\<rparr>"

text \<open>
  The body of the \<open>forEach\<close> of \<open>updateParticles\<close> (lines 1370 to 1394) for the
  particle at position \<open>index\<close>. The guard \<open>this.mouseX && this.mouseY\<close> holds when
  neither coordinate is zero.
\<close>

definition updateParticle :: "particle_wave \<Rightarrow> nat \<Rightarrow> wave_particle \<Rightarrow> wave_particle" where
  "updateParticle w index p =
     (let waveOffset = sin (real index * waveFrequency w + time w) * waveAmplitude w;
          y0 = baseY p + waveOffset;
          (x1, y1) =
            (if mouseX w \<noteq> 0 \<and> mouseY w \<noteq> 0 then
               (let dx = mouseX w - wx p;
                    dy = mouseY w - y0;
                    distance = sqrt (dx * dx + dy * dy)
                in if distance < mouseRadius w then
                     (let force = (1 - distance / mouseRadius w) * 40;
                          angle = atan2 dy dx
                      in (wx p - cos angle * force * 0.5, y0 - sin angle * force))
                   else (wx p, y0))
             else (wx p, y0));
          x2 = x1 + (originalX p - x1) * 0.05;
          y2 = y1 + sin (time w * speed p + offset p) * 1
      in p\<lparr>wx := x2, wy := y2\<rparr>)"

text \<open>
  Three of the local values of that body by name: the height of the wave at the particle
  (\<open>particle.baseY + waveOffset\<close>), the distance of the pointer from the particle
  and the angle under which the pointer is seen.
\<close>

definition wave_y :: "particle_wave \<Rightarrow> nat \<Rightarrow> wave_particle \<Rightarrow> real" where
  "wave_y w index p = baseY p + sin (real index * waveFrequency w + time w) * waveAmplitude w"

definition pointer_distance :: "particle_wave \<Rightarrow> nat \<Rightarrow> wave_particle \<Rightarrow> real" where
  "pointer_distance w index p =
     (let dx = mouseX w - wx p; dy = mouseY w - wave_y w index p
      in sqrt (dx * dx + dy * dy))"

definition pointer_angle :: "particle_wave \<Rightarrow> nat \<Rightarrow> wave_particle \<Rightarrow> real" where
  "pointer_angle w index p = atan2 (mouseY w - wave_y w index p) (mouseX w - wx p)"

text \<open>\<open>updateParticles\<close> (lines 1367 to 1395).\<close>

definition updateParticles :: "particle_wave \<Rightarrow> particle_wave" where
  "updateParticles w =
     (if \<not> isActive w then w
      else w\<lparr>particles := map (\<lambda>(index, p). updateParticle w index p) (enumerate 0 (particles w))\<rparr>)"

text \<open>
  One run of \<open>animate\<close> (lines 1464 to 1470), without the drawing, which changes
  nothing in the object; it ends by requesting the next frame.
\<close>

definition animate :: "particle_wave \<Rightarrow> particle_wave" where
  "animate w = updateParticles (w\<lparr>time := time w + waveSpeed w\<rparr>)"

text \<open>
  The constructor (lines 1266 to 1285). Without the canvas element it returns before
  anything else happens: the object has no field but \<open>canvas\<close>, which is null
  (\<open>None\<close> here). With a canvas whose 2d context is null, the first \<open>animate\<close>
  throws in \<open>drawParticles\<close>, before a frame is requested or a listener registered.
\<close>

definition wave_listeners :: "window \<Rightarrow> string list" where
  "wave_listeners win =
     ''resize'' #
     (if has_touch win then [''touchstart'', ''touchmove'', ''touchend'']
      else [''mousemove'', ''mouseleave''])"

definition ParticleWave_new ::
  "window \<Rightarrow> bool \<Rightarrow> bool \<Rightarrow> (nat \<Rightarrow> real) \<Rightarrow> string + (particle_wave option \<times> wave_effects)" where
  "ParticleWave_new win has_canvas has_ctx rs =
     (if \<not> has_canvas then Inr (None, no_effects)
      else
        (let w0 = \<lparr>canvas_width = 0, canvas_height = 0, centerY = 0, particles = [],
                   numberOfParticles = (if innerWidth win < 768 then 40 else 60),
                   waveAmplitude = 80, waveFrequency = 0.008, waveSpeed = 0.015,
                   time = 0, mouseX = 0, mouseY = 0, mouseRadius = 120, isActive = True\<rparr>;
             w1 = createParticles rs (resize win w0);
             w2 = animate w1
         in if \<not> has_ctx then Inl ''TypeError''
            else Inr (Some w2,
                      \<lparr>listeners = wave_listeners win, frames_requested = 1, observing = True\<rparr>)))"

text \<open>
  What happens to a running wave: the pointer moves over the canvas or leaves it (mouse
  or touch), the intersection observer reports whether the canvas is visible, or the
  requested animation frame arrives. The size of the window stays as it is.
\<close>

datatype wave_event =
    Pointer_move real real
  | Pointer_leave
  | Intersecting bool
  | Animation_frame

fun wave_step :: "particle_wave \<Rightarrow> wave_event \<Rightarrow> particle_wave" where
  "wave_step w (Pointer_move a b) = w\<lparr>mouseX := a, mouseY := b\<rparr>"
| "wave_step w Pointer_leave = w\<lparr>mouseX := 0, mouseY := 0\<rparr>"
| "wave_step w (Intersecting v) = w\<lparr>isActive := v\<rparr>"
| "wave_step w Animation_frame = animate w"

definition wave_run :: "particle_wave \<Rightarrow> wave_event list \<Rightarrow> particle_wave" where
  "wave_run w evs = foldl wave_step w evs"

subsection \<open>Particles that move with a velocity\<close>

text \<open>
  The particles of the button canvas (\<open>ButtonSystem.initParticles\<close>, script.js, the file src/unnamed/part_000) and of
  the particle container (\<open>EnergyApp\<close>, 112energie.js) have a position and a velocity;
  their other fields (size, opacity, DOM element) play no part in the motion.
\<close>

record moving_particle =
  pos_x :: real
  pos_y :: real
  vel_x :: real
  vel_y :: real

text \<open>
  \<open>ButtonSystem.initParticles\<close> (script.js, lines 77 to 130): the creation of one
  particle from four random numbers, and its update in one frame, which wraps it at the
  edges of the canvas.
\<close>

definition button_particle :: "real \<Rightarrow> real \<Rightarrow> real \<Rightarrow> real \<Rightarrow> real \<Rightarrow> real \<Rightarrow> moving_particle" where
  "button_particle width height r1 r2 r3 r4 =
     \<lparr>pos_x = r1 * width, pos_y = r2 * height,
      vel_x = (r3 - 0.5) * 0.5, vel_y = (r4 - 0.5) * 0.5\<rparr>"

definition wrap_particle :: "real \<Rightarrow> real \<Rightarrow> moving_particle \<Rightarrow> moving_particle" where
  "wrap_particle width height p =
     (let x1 = pos_x p + vel_x p;
          y1 = pos_y p + vel_y p;
          x2 = (if x1 < 0 then width else x1);
          x3 = (if x2 > width then 0 else x2);
          y2 = (if y1 < 0 then height else y1);
          y3 = (if y2 > height then 0 else y2)
      in p\<lparr>pos_x := x3, pos_y := y3\<rparr>)"

text \<open>The thirty particles of a button; each draws six random numbers.\<close>

definition button_particles :: "real \<Rightarrow> real \<Rightarrow> (nat \<Rightarrow> real) \<Rightarrow> moving_particle list" where
  "button_particles width height rs =
     map (\<lambda>i. button_particle width height (rs (6 * i)) (rs (6 * i + 1)) (rs (6 * i + 2)) (rs (6 * i + 3)))
       [0..<30]"

fun button_frames :: "real \<Rightarrow> real \<Rightarrow> nat \<Rightarrow> moving_particle list \<Rightarrow> moving_particle list" where
  "button_frames width height 0 ps = ps"
| "button_frames width height (Suc n) ps =
     button_frames width height n (map (wrap_particle width height) ps)"

text \<open>
  \<open>EnergyApp.createParticles\<close> and \<open>EnergyApp.animateParticles\<close> (112energie.js,
  lines 280 to 340). A particle that has left through the top is put back below the
  container at a random \<open>x\<close>; one that is left or right of the container has its
  horizontal velocity reversed. The random number of a frame is only read on a reset.
\<close>

definition dom_particle :: "real \<Rightarrow> real \<Rightarrow> real \<Rightarrow> real \<Rightarrow> real \<Rightarrow> real \<Rightarrow> moving_particle" where
  "dom_particle width height r1 r2 r3 r4 =
     \<lparr>pos_x = r1 * width, pos_y = height + r2 * 100,
      vel_x = (r3 - 0.5) * 2, vel_y = - r4 * 2 - 1\<rparr>"

text \<open>
  The fifty particles (\<open>maxParticles\<close>) of the container; of the six random numbers
  of a particle the third and the fourth go into its style.
\<close>

definition dom_particles :: "real \<Rightarrow> real \<Rightarrow> (nat \<Rightarrow> real) \<Rightarrow> moving_particle list" where
  "dom_particles width height rs =
     map (\<lambda>i. dom_particle width height (rs (6 * i)) (rs (6 * i + 1)) (rs (6 * i + 4)) (rs (6 * i + 5)))
       [0..<50]"

definition animateParticle :: "real \<Rightarrow> real \<Rightarrow> real \<Rightarrow> moving_particle \<Rightarrow> moving_particle" where
  "animateParticle width height r p =
     (let y1 = pos_y p + vel_y p;
          x1 = pos_x p + vel_x p;
          (x2, y2) = (if y1 < - 50 then (r * width, height + 50) else (x1, y1));
          vx2 = (if x2 < 0 \<or> x2 > width then vel_x p * - 1 else vel_x p)
      in p\<lparr>pos_x := x2, pos_y := y2, vel_x := vx2\<rparr>)"

definition animateParticles ::
  "real \<Rightarrow> real \<Rightarrow> (nat \<Rightarrow> real) \<Rightarrow> moving_particle list \<Rightarrow> moving_particle list" where
  "animateParticles width height rs ps =
     map (\<lambda>(i, p). animateParticle width height (rs i) p) (enumerate 0 ps)"

fun dom_frames ::
  "real \<Rightarrow> real \<Rightarrow> (nat \<Rightarrow> real) list \<Rightarrow> moving_particle list \<Rightarrow> moving_particle list" where
  "dom_frames width height [] ps = ps"
| "dom_frames width height (rs # frames) ps =
     dom_frames width height frames (animateParticles width height rs ps)"

text \<open>\<open>Math.random\<close> returns a number from 0 up to, but not including, 1.\<close>

definition unit_random :: "(nat \<Rightarrow> real) \<Rightarrow> bool" where
  "unit_random rs = (\<forall>i. 0 \<le> rs i \<and> rs i < 1)"

text \<open>The invariants of the proofs: what every update of a particle keeps.\<close>

definition wave_inv :: "real \<Rightarrow> real \<Rightarrow> wave_particle \<Rightarrow> bool" where
  "wave_inv width height p =
     (0 \<le> originalX p \<and> originalX p \<le> width \<and> baseY p = height / 2 \<and>
      \<bar>wx p - originalX p\<bar> \<le> 380 \<and> \<bar>wy p - baseY p\<bar> \<le> 121)"

definition wave_ok :: "particle_wave \<Rightarrow> bool" where
  "wave_ok w = (waveAmplitude w = 80 \<and> mouseRadius w = 120)"

definition in_canvas :: "real \<Rightarrow> real \<Rightarrow> moving_particle \<Rightarrow> bool" where
  "in_canvas width height p =
     (0 \<le> pos_x p \<and> pos_x p \<le> width \<and> 0 \<le> pos_y p \<and> pos_y p \<le> height)"

definition dom_inv :: "real \<Rightarrow> real \<Rightarrow> moving_particle \<Rightarrow> bool" where
  "dom_inv width height p =
     (\<bar>vel_x p\<bar> \<le> 1 \<and> - 3 \<le> vel_y p \<and> vel_y p \<le> - 1 \<and>
      - 50 \<le> pos_y p \<and> pos_y p \<le> height + 100 \<and>
      ((0 \<le> pos_x p \<and> pos_x p \<le> width) \<or>
       (width < pos_x p \<and> vel_x p < 0 \<and> 0 \<le> pos_x p + vel_x p \<and> pos_x p + vel_x p \<le> width) \<or>
       (pos_x p < 0 \<and> 0 < vel_x p \<and> 0 \<le> pos_x p + vel_x p \<and> pos_x p + vel_x p \<le> width)))"

text \<open>
  Waves for the examples: a window of 1024 by 768, and a wave of one particle at rest at
  \<open>(100, 50)\<close> with the pointer on it, far from it, and at the left edge of the
  canvas.
\<close>

definition demo_window :: window where
  "demo_window = \<lparr>innerWidth = 1024, innerHeight = 768, has_touch = False\<rparr>"

definition demo_wave :: "real \<Rightarrow> real \<Rightarrow> real \<Rightarrow> particle_wave" where
  "demo_wave a mx my =
     \<lparr>canvas_width = 1024, canvas_height = 100, centerY = 50,
      particles = [\<lparr>wx = a, wy = 50, baseY = 50, wsize = 2, speed = 0.5, offset = 0, originalX = a\<rparr>],
      numberOfParticles = 1, waveAmplitude = 80, waveFrequency = 0.008, waveSpeed = 0.015,
      time = 0, mouseX = mx, mouseY = my, mouseRadius = 120, isActive = True\<rparr>"

section \<open>Ripple effect\<close>

text \<open>
  A click on a button appends a \<open>span\<close> of class \<open>ripple-effect\<close> to the button
  and sets a timeout of 600 milliseconds that removes it. Time is a clock in
  milliseconds; a timeout runs when the clock reaches the moment it is due, before any
  later click is handled. The state of a button: the clock, the ripple nodes attached
  to the button in document order (a node is a number, kept with the moment of its
  creation), the timeouts pending (the moment due and the node to remove), the number
  of the next node, which is also the number of nodes created so far, and the moments of
  the clicks handled.
\<close>

record ripple_button =
  now :: nat
  ripples :: "(nat \<times> nat) list"
  timers :: "(nat \<times> nat) list"
  next_node :: nat
  clicks :: "nat list"

definition fresh_button :: ripple_button where
  "fresh_button = \<lparr>now = 0, ripples = [], timers = [], next_node = 0, clicks = []\<rparr>"

text \<open>\<open>ripple.remove()\<close>: the node leaves the button, if it is attached.\<close>

definition remove_ripple :: "nat \<Rightarrow> ripple_button \<Rightarrow> ripple_button" where
  "remove_ripple node b = b\<lparr>ripples := filter (\<lambda>(i, t). i \<noteq> node) (ripples b)\<rparr>"

text \<open>
  \<open>ButtonController.createRipple\<close> (buttons.js, lines 38 to 68): nothing for a
  button with the attribute \<open>data-no-ripple\<close>; otherwise the first ripple attached,
  if there is one, is removed before the new one is appended.
\<close>

definition createRipple :: "bool \<Rightarrow> ripple_button \<Rightarrow> ripple_button" where
  "createRipple no_ripple b =
     (if no_ripple then b
      else
        (let ripple = next_node b;
             b1 = b\<lparr>next_node := Suc ripple\<rparr>;
             b2 = (case ripples b1 of [] \<Rightarrow> b1 | (existing, t) # rest \<Rightarrow> remove_ripple existing b1);
             b3 = b2\<lparr>ripples := ripples b2 @ [(ripple, now b2)]\<rparr>
         in b3\<lparr>timers := timers b3 @ [(now b3 + 600, ripple)]\<rparr>))"

text \<open>
  The click listener of \<open>ButtonSystem.initRipples\<close> (script.js, lines 235 to 264), on
  a button with the attribute \<open>data-ripple\<close>.
\<close>

definition initRipples_click :: "ripple_button \<Rightarrow> ripple_button" where
  "initRipples_click b =
     (let ripple = next_node b;
          b1 = b\<lparr>next_node := Suc ripple\<rparr>;
          b2 = b1\<lparr>ripples := ripples b1 @ [(ripple, now b1)]\<rparr>
      in b2\<lparr>timers := timers b2 @ [(now b2 + 600, ripple)]\<rparr>)"

text \<open>
  The clock advances by \<open>n\<close> milliseconds: the timeouts due by then run, each
  removing its node (the test \<open>ripple.parentNode\<close> of buttons.js makes no
  difference to the outcome), and leave the list of pending timeouts.
\<close>

definition advance :: "nat \<Rightarrow> ripple_button \<Rightarrow> ripple_button" where
  "advance n b =
     (let later = now b + n;
          due = filter (\<lambda>(d, i). d \<le> later) (timers b);
          b1 = fold (\<lambda>(d, i). remove_ripple i) due b
      in b1\<lparr>now := later, timers := filter (\<lambda>(d, i). \<not> d \<le> later) (timers b)\<rparr>)"

datatype button_event = Click | Wait nat

fun is_click :: "button_event \<Rightarrow> bool" where
  "is_click Click = True"
| "is_click (Wait n) = False"

fun controller_step :: "bool \<Rightarrow> ripple_button \<Rightarrow> button_event \<Rightarrow> ripple_button" where
  "controller_step no_ripple b Click = createRipple no_ripple (b\<lparr>clicks := clicks b @ [now b]\<rparr>)"
| "controller_step no_ripple b (Wait n) = advance n b"

fun system_step :: "ripple_button \<Rightarrow> button_event \<Rightarrow> ripple_button" where
  "system_step b Click = initRipples_click (b\<lparr>clicks := clicks b @ [now b]\<rparr>)"
| "system_step b (Wait n) = advance n b"

definition controller_run :: "bool \<Rightarrow> button_event list \<Rightarrow> ripple_button" where
  "controller_run no_ripple evs = foldl (controller_step no_ripple) fresh_button evs"

definition system_run :: "button_event list \<Rightarrow> ripple_button" where
  "system_run evs = foldl system_step fresh_button evs"

text \<open>
  The invariant of the proofs: the nodes attached and the nodes of the pending timeouts
  are numbered below \<open>next_node\<close>, no two timeouts are for the same node, no pending
  timeout is due, and every node attached has its timeout pending, 600 milliseconds
  after its creation, which is not in the future.
\<close>

definition ripple_inv :: "ripple_button \<Rightarrow> bool" where
  "ripple_inv b =
     (list_all (\<lambda>(d, i). i < next_node b \<and> now b < d) (timers b) \<and>
      distinct (map snd (timers b)) \<and>
      list_all (\<lambda>(i, t). t \<le> now b \<and> (t + 600, i) \<in> set (timers b)) (ripples b))"

text \<open>
  For \<open>ButtonSystem\<close>, moreover, the nodes attached are those of the clicks of the
  last 600 milliseconds, in their order.
\<close>

definition system_inv :: "ripple_button \<Rightarrow> bool" where
  "system_inv b =
     (ripple_inv b \<and> map snd (ripples b) = filter (\<lambda>t. now b < t + 600) (clicks b))"

text \<open>
  Clicks for the examples: one click, two more at once 100 milliseconds later, and 500
  milliseconds of rest, so that the clock stands at 600.
\<close>

definition demo_clicks :: "button_event list" where
  "demo_clicks = [Click, Wait 100, Click, Click, Wait 500]"

section \<open>Cookie consent: \<open>CookieConsent\<close> (112energie-critical/src/scripts/components.js, lines 1300 to 1369)\<close>

text \<open>
  The cookies of the site as the browser keeps them between page loads: a name, a value
  and the moment of expiry, in milliseconds. The text assigned to
  \<open>document.cookie\<close> is taken as parsed: the assignment stores the cookie in place
  of one of the same name (all cookies here have the path \<open>/\<close>). Reading
  \<open>document.cookie\<close> at a moment gives the \<open>name=value\<close> pairs of the cookies
  that have not expired by then, separated by a semicolon and a space.
\<close>

record cookie =
  cookie_name :: string
  cookie_value :: string
  expires :: nat

definition store_cookie :: "cookie \<Rightarrow> cookie list \<Rightarrow> cookie list" where
  "store_cookie c jar = filter (\<lambda>d. cookie_name d \<noteq> cookie_name c) jar @ [c]"

fun join_pairs :: "string list \<Rightarrow> string" where
  "join_pairs [] = []"
| "join_pairs [p] = p"
| "join_pairs (p # q # ps) = p @ ''; '' @ join_pairs (q # ps)"

definition document_cookie :: "cookie list \<Rightarrow> nat \<Rightarrow> string" where
  "document_cookie jar t =
     join_pairs (map (\<lambda>c. cookie_name c @ ''='' @ cookie_value c)
                   (filter (\<lambda>c. t < expires c) jar))"

text \<open>The two fields the constructor sets: the name of the cookie and its life in days.\<close>

definition cookieName :: string where
  "cookieName = ''112energie_consent''"

definition cookieExpiry :: nat where
  "cookieExpiry = 365"

text \<open>
  \<open>hasConsent\<close> (lines 1310 to 1312); \<open>includes\<close> is the test for a contiguous
  substring.
\<close>

definition hasConsent :: "cookie list \<Rightarrow> nat \<Rightarrow> bool" where
  "hasConsent jar t = sublist (cookieName @ ''=true'') (document_cookie jar t)"

text \<open>
  \<open>date.toUTCString()\<close> renders a moment with whole seconds: the milliseconds are
  dropped, and the moment that the browser reads back from the text is the second that
  has begun.
\<close>

definition toUTCString :: "nat \<Rightarrow> nat" where
  "toUTCString t = t div 1000 * 1000"

text \<open>
  \<open>setCookie\<close> (lines 1346 to 1351) at the moment \<open>t\<close>: the expiry is 365
  days after \<open>t\<close>, written with \<open>toUTCString\<close>; the value is rendered by the
  template literal.
\<close>

definition setCookie :: "bool \<Rightarrow> nat \<Rightarrow> cookie list \<Rightarrow> cookie list" where
  "setCookie v t jar =
     store_cookie
       \<lparr>cookie_name = cookieName,
        cookie_value = (if v then ''true'' else ''false''),
        expires = toUTCString (t + cookieExpiry * 24 * 60 * 60 * 1000)\<rparr>
       jar"

text \<open>
  A page: the number of \<open>cookie-banner\<close> elements in its body, and the cookies. A
  page load starts without a banner, with the cookies the browser has kept. The
  constructor (lines 1301 to 1308) appends a banner unless there is consent.
\<close>

record consent_page =
  banners :: nat
  jar :: "cookie list"

definition page_load :: "cookie list \<Rightarrow> consent_page" where
  "page_load cookies = \<lparr>banners = 0, jar = cookies\<rparr>"

definition showBanner :: "consent_page \<Rightarrow> consent_page" where
  "showBanner pg = pg\<lparr>banners := Suc (banners pg)\<rparr>"

definition CookieConsent_new :: "nat \<Rightarrow> consent_page \<Rightarrow> consent_page" where
  "CookieConsent_new t pg = (if \<not> hasConsent (jar pg) t then showBanner pg else pg)"

text \<open>
  \<open>accept\<close> and \<open>reject\<close> (lines 1335 to 1344) at the moment \<open>t\<close>;
  \<open>hideBanner\<close> removes the first banner of the page, 300 milliseconds later, which
  is not kept apart here.
\<close>

definition hideBanner :: "consent_page \<Rightarrow> consent_page" where
  "hideBanner pg = pg\<lparr>banners := banners pg - 1\<rparr>"

definition accept :: "nat \<Rightarrow> consent_page \<Rightarrow> consent_page" where
  "accept t pg = hideBanner (pg\<lparr>jar := setCookie True t (jar pg)\<rparr>)"

definition reject :: "nat \<Rightarrow> consent_page \<Rightarrow> consent_page" where
  "reject t pg = hideBanner (pg\<lparr>jar := setCookie False t (jar pg)\<rparr>)"

text \<open>
  For the examples: a session cookie of another name, and a cookie that some other
  script stores after the consent was given.
\<close>

definition demo_jar :: "cookie list" where
  "demo_jar = [\<lparr>cookie_name = ''lang'', cookie_value = ''nl'', expires = 5000\<rparr>]"

definition demo_other :: cookie where
  "demo_other = \<lparr>cookie_name = ''theme'', cookie_value = ''dark'', expires = 90000000000\<rparr>"

section \<open>Energy calculators\<close>

text \<open>
  Three calculators read the same form. A JavaScript number is \<open>NaN\<close> or a real
  number (the arithmetic is exact); an operation with \<open>NaN\<close> gives \<open>NaN\<close>.
\<close>

datatype jsnum = NaN | Num real

fun jmul :: "jsnum \<Rightarrow> jsnum \<Rightarrow> jsnum" where
  "jmul (Num a) (Num b) = Num (a * b)"
| "jmul a b = NaN"

fun jadd :: "jsnum \<Rightarrow> jsnum \<Rightarrow> jsnum" where
  "jadd (Num a) (Num b) = Num (a + b)"
| "jadd a b = NaN"

fun jsub :: "jsnum \<Rightarrow> jsnum \<Rightarrow> jsnum" where
  "jsub (Num a) (Num b) = Num (a - b)"
| "jsub a b = NaN"

text \<open>Division by a number that is not zero, which is all the calculators divide by.\<close>

fun jdiv :: "jsnum \<Rightarrow> real \<Rightarrow> jsnum" where
  "jdiv (Num a) b = Num (a / b)"
| "jdiv NaN b = NaN"

text \<open>\<open>Math.round\<close>: the integer nearest, a half going up; \<open>Math.max(0, v)\<close>.\<close>

fun Math_round :: "jsnum \<Rightarrow> jsnum" where
  "Math_round (Num a) = Num (of_int \<lfloor>a + 1 / 2\<rfloor>)"
| "Math_round NaN = NaN"

fun Math_max0 :: "jsnum \<Rightarrow> jsnum" where
  "Math_max0 (Num a) = Num (max 0 a)"
| "Math_max0 NaN = NaN"

text \<open>
  \<open>parseInt\<close> of a string: white space is skipped, a sign is read, then the digits,
  of base 16 after \<open>0x\<close> and of base 10 otherwise, as far as they go; without a
  digit the result is \<open>NaN\<close>.
\<close>

definition is_space :: "char \<Rightarrow> bool" where
  "is_space c = (c = CHR '' '' \<or> c = CHR 0x09 \<or> c = CHR 0x0A \<or> c = CHR 0x0D)"

definition digit_of :: "nat \<Rightarrow> char \<Rightarrow> nat option" where
  "digit_of radix c =
     (let n = (of_char c :: nat);
          v = (if 48 \<le> n \<and> n \<le> 57 then Some (n - 48)
               else if 97 \<le> n \<and> n \<le> 102 then Some (n - 87)
               else if 65 \<le> n \<and> n \<le> 70 then Some (n - 55)
               else None)
      in case v of None \<Rightarrow> None | Some d \<Rightarrow> if d < radix then Some d else None)"

fun read_digits :: "nat \<Rightarrow> string \<Rightarrow> nat option \<Rightarrow> nat option" where
  "read_digits radix [] acc = acc"
| "read_digits radix (c # cs) acc =
     (case digit_of radix c of
        None \<Rightarrow> acc
      | Some d \<Rightarrow> read_digits radix cs (Some ((case acc of None \<Rightarrow> 0 | Some a \<Rightarrow> a) * radix + d)))"

definition parseInt :: "string \<Rightarrow> jsnum" where
  "parseInt s =
     (let s1 = dropWhile is_space s;
          (negative, s2) =
            (case s1 of
               [] \<Rightarrow> (False, s1)
             | c # r \<Rightarrow> if c = CHR ''-'' then (True, r) else if c = CHR ''+'' then (False, r) else (False, s1));
          (radix, s3) =
            (if take 2 s2 = ''0x'' \<or> take 2 s2 = ''0X'' then (16, drop 2 s2) else (10, s2))
      in case read_digits radix s3 None of
           None \<Rightarrow> NaN
         | Some n \<Rightarrow> Num (if negative then - real n else real n))"

text \<open>
  The form: for each input element the text of its \<open>value\<close> or the state of its
  \<open>checked\<close>, and \<open>None\<close> where the document has no element of that id.
\<close>

record calc_form =
  in_householdSize :: "string option"
  in_homeType :: "string option"
  in_electricityUsage :: "string option"
  in_gasUsage :: "string option"
  in_greenEnergy :: "bool option"
  in_solarPanels :: "bool option"
  in_smartMeter :: "bool option"

text \<open>
  The page: the form and the numbers that the three output elements show, which are
  taken to exist (\<open>None\<close>: nothing was written yet).
\<close>

record calc_page =
  form :: calc_form
  monthlyAmount_text :: "jsnum option"
  yearlyAmount_text :: "jsnum option"
  savingsAmount_text :: "jsnum option"

subsection \<open>\<open>EnergyCalculator.calculate\<close> (112energie-critical components.js, lines 818 to 873)\<close>

text \<open>
  The three tables of the constructor. A key that is not in \<open>consumption\<close> gives
  \<open>undefined\<close>, whose property \<open>power\<close> cannot be read; a key that is not in
  \<open>homeTypeMultiplier\<close> gives \<open>undefined\<close>, which is \<open>NaN\<close> as a factor.
  (Keys that name a property of every object, such as \<open>constructor\<close>, are not
  modelled.)
\<close>

definition rate_electricity :: real where "rate_electricity = 0.45"
definition rate_gas :: real where "rate_gas = 1.50"
definition rate_solarDiscount :: real where "rate_solarDiscount = 0.15"

definition consumption :: "string \<Rightarrow> (real \<times> real) option" where
  "consumption k =
     (if k = ''1'' then Some (1800, 800)
      else if k = ''2'' then Some (2800, 1200)
      else if k = ''3'' then Some (3500, 1400)
      else if k = ''4'' then Some (4200, 1600)
      else if k = ''5'' then Some (5000, 1800)
      else None)"

definition homeTypeMultiplier :: "string \<Rightarrow> jsnum" where
  "homeTypeMultiplier k =
     (if k = ''apartment'' then Num 0.8
      else if k = ''row-house'' then Num 1.0
      else if k = ''corner-house'' then Num 1.1
      else if k = ''detached'' then Num 1.3
      else NaN)"

record calc_result =
  r_power :: jsnum
  r_gas :: jsnum
  r_monthly :: jsnum

definition calculate :: "calc_page \<Rightarrow> string + calc_result" where
  "calculate pg =
     (case (in_householdSize (form pg), in_homeType (form pg), in_solarPanels (form pg)) of
        (Some householdSize, Some homeType, Some hasSolar) \<Rightarrow>
          (case consumption householdSize of
             None \<Rightarrow> Inl ''TypeError''
           | Some (base_power, base_gas) \<Rightarrow>
               (let multiplier = homeTypeMultiplier homeType;
                    powerConsumption = jmul (Num base_power) multiplier;
                    gasConsumption = jmul (Num base_gas) multiplier;
                    electricityCost0 = jmul powerConsumption (Num rate_electricity);
                    gasCost = jmul gasConsumption (Num rate_gas);
                    electricityCost =
                      (if hasSolar then jmul electricityCost0 (Num (1 - rate_solarDiscount))
                       else electricityCost0);
                    yearlyTotal = jadd electricityCost gasCost;
                    monthlyAmount = jdiv yearlyTotal 12
                in Inr \<lparr>r_power = Math_round powerConsumption,
                        r_gas = Math_round gasConsumption,
                        r_monthly = Math_round monthlyAmount\<rparr>))
      | _ \<Rightarrow> Inl ''TypeError'')"

subsection \<open>\<open>calculateEnergyCosts\<close> (112energie-critical components.js, lines 1860 to 1905)\<close>

text \<open>This one writes its results into the three output elements of the page.\<close>

definition homeMultipliers :: "string \<Rightarrow> jsnum" where
  "homeMultipliers k =
     (if k = ''apartment'' then Num 0.7
      else if k = ''row-house'' then Num 1.0
      else if k = ''corner-house'' then Num 1.2
      else if k = ''semi-detached'' then Num 1.3
      else if k = ''detached'' then Num 1.5
      else if k = ''villa'' then Num 2.0
      else NaN)"

definition calculateEnergyCosts :: "calc_page \<Rightarrow> string + calc_page" where
  "calculateEnergyCosts pg =
     (case (in_householdSize (form pg), in_homeType (form pg),
            in_greenEnergy (form pg), in_solarPanels (form pg)) of
        (Some hs, Some homeType, Some hasGreenEnergy, Some hasSolarPanels) \<Rightarrow>
          (let householdSize = parseInt hs;
               electricityUsage0 = jadd (Num 2800) (jmul (jsub householdSize (Num 2)) (Num 500));
               gasUsage0 = jadd (Num 1200) (jmul (jsub householdSize (Num 2)) (Num 200));
               electricityUsage1 = jmul electricityUsage0 (homeMultipliers homeType);
               gasUsage = jmul gasUsage0 (homeMultipliers homeType);
               electricityUsage =
                 (if hasSolarPanels then jmul electricityUsage1 (Num 0.6) else electricityUsage1);
               electricityRate = (if hasGreenEnergy then 0.28 else 0.26);
               gasRate = 1.45;
               monthlyCost =
                 jdiv (jadd (jmul electricityUsage (Num electricityRate)) (jmul gasUsage (Num gasRate))) 12;
               yearlyCost = jmul monthlyCost (Num 12);
               savings = jmul yearlyCost (Num 0.15)
           in Inr (pg\<lparr>monthlyAmount_text := Some (Math_round monthlyCost),
                      yearlyAmount_text := Some (Math_round yearlyCost),
                      savingsAmount_text := Some (Math_round savings)\<rparr>))
      | _ \<Rightarrow> Inl ''TypeError'')"

subsection \<open>The enhanced \<open>EnergyCalculator\<close> (src/scripts/components.js, lines 1478 to 1606)\<close>

text \<open>
  \<open>gatherData\<close> (lines 1591 to 1601): a missing element or an empty value gives
  the default.
\<close>

record calc_data =
  householdSize :: jsnum
  homeType :: string
  electricityUsage :: jsnum
  gasUsage :: jsnum
  greenEnergy :: bool
  solarPanels :: bool
  smartMeter :: bool

definition parseInt_or :: "string option \<Rightarrow> real \<Rightarrow> jsnum" where
  "parseInt_or v d = (case v of None \<Rightarrow> Num d | Some s \<Rightarrow> if s = [] then Num d else parseInt s)"

definition value_or :: "string option \<Rightarrow> string \<Rightarrow> string" where
  "value_or v d = (case v of None \<Rightarrow> d | Some s \<Rightarrow> if s = [] then d else s)"

definition checked_or_false :: "bool option \<Rightarrow> bool" where
  "checked_or_false v = (case v of None \<Rightarrow> False | Some b \<Rightarrow> b)"

definition gatherData :: "calc_page \<Rightarrow> calc_data" where
  "gatherData pg =
     \<lparr>householdSize = parseInt_or (in_householdSize (form pg)) 2,
      homeType = value_or (in_homeType (form pg)) ''row-house'',
      electricityUsage = parseInt_or (in_electricityUsage (form pg)) 2800,
      gasUsage = parseInt_or (in_gasUsage (form pg)) 1200,
      greenEnergy = checked_or_false (in_greenEnergy (form pg)),
      solarPanels = checked_or_false (in_solarPanels (form pg)),
      smartMeter = checked_or_false (in_smartMeter (form pg))\<rparr>"

text \<open>
  \<open>calculate\<close> (lines 1540 to 1589) stores its results in the field \<open>results\<close>
  of the calculator and returns them. The reduction of carbon dioxide, which is
  rendered with \<open>toFixed\<close>, is left out of the results here.
\<close>

record calc_results =
  monthlyAmount :: jsnum
  yearlyAmount :: jsnum
  savingsAmount :: jsnum
  electricityCost :: jsnum
  gasCost :: jsnum
  networkCost :: jsnum
  aiDiscount :: jsnum
  data :: calc_data

record enhanced_calculator =
  results :: "calc_results option"

definition enhanced_calculate ::
  "calc_page \<Rightarrow> enhanced_calculator \<Rightarrow> calc_results \<times> enhanced_calculator" where
  "enhanced_calculate pg this =
     (let d = gatherData pg;
          electricityRate = (if greenEnergy d then 0.24 else 0.28);
          gasRate = 1.45;
          networkCosts = 456;
          electricityCost0 = jmul (electricityUsage d) (Num electricityRate);
          gasCost1 = jmul (gasUsage d) (Num gasRate);
          electricityCost1 =
            (if solarPanels d then jmul electricityCost0 (Num 0.3) else electricityCost0);
          aiDiscount1 =
            (if smartMeter d then jmul (jadd electricityCost1 gasCost1) (Num 0.08) else Num 0);
          totalYearly = jsub (jadd (jadd electricityCost1 gasCost1) (Num networkCosts)) aiDiscount1;
          totalMonthly = jdiv totalYearly 12;
          marketAverage =
            jadd (jadd (jmul (electricityUsage d) (Num 0.32)) (jmul (gasUsage d) (Num 1.65))) (Num 520);
          savings = jsub marketAverage totalYearly;
          r = \<lparr>monthlyAmount = Math_round totalMonthly,
               yearlyAmount = Math_round totalYearly,
               savingsAmount = Math_round (Math_max0 savings),
               electricityCost = Math_round electricityCost1,
               gasCost = Math_round gasCost1,
               networkCost = Num networkCosts,
               aiDiscount = Math_round aiDiscount1,
               data = d\<rparr>
      in (r, this\<lparr>results := Some r\<rparr>))"

text \<open>
  The form of the examples: a household of two in a row house, without green energy,
  solar panels or smart meter, the two usage fields at their defaults; on a page that
  shows nothing yet and on a page that shows numbers of an earlier run.
\<close>

definition demo_form :: calc_form where
  "demo_form =
     \<lparr>in_householdSize = Some ''2'', in_homeType = Some ''row-house'',
      in_electricityUsage = Some ''2800'', in_gasUsage = Some ''1200'',
      in_greenEnergy = Some False, in_solarPanels = Some False, in_smartMeter = Some False\<rparr>"

definition demo_calc_page :: calc_page where
  "demo_calc_page =
     \<lparr>form = demo_form, monthlyAmount_text = None, yearlyAmount_text = None,
      savingsAmount_text = None\<rparr>"

definition stale_calc_page :: calc_page where
  "stale_calc_page =
     \<lparr>form = demo_form, monthlyAmount_text = Some (Num 999), yearlyAmount_text = Some NaN,
      savingsAmount_text = Some (Num 0)\<rparr>"

section \<open>Properties of the component loader\<close>

subsection \<open>What each step leaves alone\<close>


lemma head_only_refl: "head_only s s"
  by (simp add: head_only_def)

lemma head_only_trans: "head_only s s1 \<Longrightarrow> head_only s1 s2 \<Longrightarrow> head_only s s2"
  by (simp add: head_only_def)

lemma head_only_loadExternalScript: "head_only s (snd (loadExternalScript e u s))"
  by (simp add: head_only_def loadExternalScript_def)

lemma head_only_executeInlineScript: "head_only s (executeInlineScript t s)"
  by (simp add: head_only_def executeInlineScript_def)

lemma head_only_initializeScripts: "head_only s (snd (initializeScripts e ns s))"
proof (induction e ns s rule: initializeScripts.induct)
  case (1 e s)
  show ?case by (simp add: head_only_refl)
next
  case (2 e a t ns s)
  show ?case
  proof (cases "src_property e a \<noteq> []")
    case True
    obtain b s' where L: "loadExternalScript e (src_property e a) s = (b, s')"
      by (cases "loadExternalScript e (src_property e a) s")
    have H: "head_only s s'"
      using head_only_loadExternalScript [of s e "src_property e a"] L by simp
    show ?thesis
    proof (cases b)
      case True
      with 2(1) [OF \<open>src_property e a \<noteq> []\<close> L [symmetric]] L H \<open>src_property e a \<noteq> []\<close>
      show ?thesis by (auto intro: head_only_trans)
    next
      case False
      with L H \<open>src_property e a \<noteq> []\<close> show ?thesis by simp
    qed
  next
    case False
    with 2(2) head_only_executeInlineScript [of s t] show ?thesis
      by (auto intro: head_only_trans)
  qed
qed (simp_all)

lemma head_only_initializeStyles: "head_only s (initializeStyles e ns s)"
proof (induction e ns s rule: initializeStyles.induct)
  case (1 e s)
  show ?case by (simp add: head_only_refl)
next
  case (2 e r a ns s)
  have "head_only s (s\<lparr>head_els := head_els s @ [Link_el r a]\<rparr>)"
    by (simp add: head_only_def)
  with 2 show ?case
    by (auto intro: head_only_trans)
next
  case (3 e a t ns s)
  have "head_only s (s\<lparr>head_els := head_els s @ [Style_el a t]\<rparr>)"
    by (simp add: head_only_def)
  with 3 show ?case
    by (auto intro: head_only_trans)
qed (simp_all)



lemma set_innerHTML_fields [simp]:
  "loadedComponents (set_innerHTML c h s) = loadedComponents s"
  "componentCache (set_innerHTML c h s) = componentCache s"
  "head_els (set_innerHTML c h s) = head_els s"
  "fetch_log (set_innerHTML c h s) = fetch_log s"
  "injections (set_innerHTML c h s) = injections s"
  "events (set_innerHTML c h s) = events s"
  "inline_runs (set_innerHTML c h s) = inline_runs s"
  "length (containers (set_innerHTML c h s)) = length (containers s)"
  by (simp_all add: set_innerHTML_def)

lemma set_innerHTML_elem_id [simp]:
  "elem_id (containers (set_innerHTML c h s) ! k) = elem_id (containers s ! k)"
  by (cases "c < length (containers s)")
     (auto simp: set_innerHTML_def nth_list_update list_update_beyond)

lemma set_innerHTML_same [simp]:
  "c < length (containers s) \<Longrightarrow> innerHTML (containers (set_innerHTML c h s) ! c) = h"
  by (simp add: set_innerHTML_def)

lemma set_innerHTML_other [simp]:
  "k \<noteq> c \<Longrightarrow> containers (set_innerHTML c h s) ! k = containers s ! k"
  by (simp add: set_innerHTML_def)

subsection \<open>Single steps of a load\<close>



lemma fetch_component_failed:
  "componentCache s p = None \<Longrightarrow>
   net e p = Network_failure m \<or> (\<exists>status h. net e p = Response status h \<and> \<not> response_ok status) \<Longrightarrow>
   \<exists>msg. fetch_component e p s = (Inl msg, s\<lparr>fetch_log := fetch_log s @ [p]\<rparr>)"
  by (auto simp: fetch_component_def)



lemma showLoading_fields [simp]:
  "loadedComponents (showLoadingState c s) = loadedComponents s"
  "componentCache (showLoadingState c s) = componentCache s"
  "fetch_log (showLoadingState c s) = fetch_log s"
  "injections (showLoadingState c s) = injections s"
  "events (showLoadingState c s) = events s"
  "length (containers (showLoadingState c s)) = length (containers s)"
  "elem_id (containers (showLoadingState c s) ! k) = elem_id (containers s ! k)"
  by (simp_all add: showLoadingState_def)

lemma set_innerHTML_twice [simp]:
  "set_innerHTML c h (set_innerHTML c h' s) = set_innerHTML c h s"
  by (cases "c < length (containers s)") (simp_all add: set_innerHTML_def list_update_beyond)

lemma set_innerHTML_showLoading [simp]:
  "set_innerHTML c h (showLoadingState c s) = set_innerHTML c h s"
  by (simp add: showLoadingState_def)





text \<open>
  The trace of events grows only in a successful installation, which records the id of
  the component.
\<close>

lemma head_only_events: "head_only s s' \<Longrightarrow> events s' = events s"
  by (simp add: head_only_def)

lemma fetch_component_events: "events (snd (fetch_component e p s)) = events s"
  by (simp add: fetch_component_def Let_def split: option.splits fetch_result.splits)

lemma install_component_recorded:
  assumes "install_component e c p cid h s = (r, s')" and "events s' \<noteq> events s"
  shows "cid \<in> loadedComponents s' \<and> r = None"
proof -
  define s1 where "s1 = (set_innerHTML c h s)\<lparr>injections := injections s @ [(c, p)]\<rparr>"
  obtain b s2 where I: "initializeComponentScripts e c s1 = (b, s2)"
    by (cases "initializeComponentScripts e c s1")
  have h2: "events s2 = events s"
    using head_only_initializeScripts [of s1 e "innerHTML (containers s1 ! c)"] I
    by (simp add: initializeComponentScripts_def head_only_def s1_def)
  show ?thesis
    using assms I h2 by (cases b) (auto simp: install_component_def Let_def s1_def [symmetric])
qed

lemma loadComponent_try_recorded:
  assumes "loadComponent_try e s c p opt rnd = (r, s')" and "events s' \<noteq> events s"
  shows "componentId p (elem_id (containers s ! c)) rnd \<in> loadedComponents s' \<and> r = None"
proof (cases "componentId p (elem_id (containers s ! c)) rnd \<in> loadedComponents s")
  case True
  with assms show ?thesis by (simp add: loadComponent_try_def)
next
  case False
  define s1 where "s1 = (if opt \<noteq> Some False then showLoadingState c s else s)"
  obtain x s2 where f: "fetch_component e p s1 = (x, s2)"
    by (cases "fetch_component e p s1")
  have e2: "events s2 = events s"
    using fetch_component_events [of e p s1] f by (simp add: s1_def)
  show ?thesis
  proof (cases x)
    case (Inl m)
    with assms False f e2 show ?thesis
      by (simp add: loadComponent_try_def Let_def s1_def [symmetric])
  next
    case (Inr h)
    with assms False f have "install_component e c p (componentId p (elem_id (containers s ! c)) rnd) h s2 = (r, s')"
      by (simp add: loadComponent_try_def Let_def s1_def [symmetric])
    from install_component_recorded [OF this] assms(2) e2 show ?thesis by simp
  qed
qed

lemma ids_kept_trans: "ids_kept s s1 \<Longrightarrow> ids_kept s1 s2 \<Longrightarrow> ids_kept s s2"
  by (simp add: ids_kept_def)

lemma ids_kept_same_containers: "containers s' = containers s \<Longrightarrow> ids_kept s s'"
  by (simp add: ids_kept_def)

lemma ids_kept_set_innerHTML: "ids_kept s (set_innerHTML c h s)"
  by (simp add: ids_kept_def)

lemma ids_kept_fetch_component: "ids_kept s (snd (fetch_component e p s))"
  by (rule ids_kept_same_containers)
     (simp add: fetch_component_def Let_def split: option.splits fetch_result.splits)

lemma ids_kept_install_component: "ids_kept s (snd (install_component e c p cid h s))"
proof -
  define s1 where "s1 = (set_innerHTML c h s)\<lparr>injections := injections s @ [(c, p)]\<rparr>"
  obtain b s2 where I: "initializeComponentScripts e c s1 = (b, s2)"
    by (cases "initializeComponentScripts e c s1")
  have k1: "ids_kept s s1"
    using ids_kept_set_innerHTML [of s c h] by (simp add: ids_kept_def s1_def)
  have c2: "containers s2 = containers s1"
    using head_only_initializeScripts [of s1 e "innerHTML (containers s1 ! c)"] I
    by (simp add: initializeComponentScripts_def head_only_def)
  have c3: "containers (initializeComponentStyles e c s2) = containers s2"
    using head_only_initializeStyles [of s2 e "innerHTML (containers s2 ! c)"]
    by (simp add: initializeComponentStyles_def head_only_def)
  have "containers (snd (install_component e c p cid h s)) = containers s1"
    using I c2 c3 by (cases b) (simp_all add: install_component_def Let_def s1_def [symmetric])
  with k1 show ?thesis
    by (simp add: ids_kept_def)
qed

lemma ids_kept_loadComponent_try: "ids_kept s (snd (loadComponent_try e s c p opt rnd))"
proof (cases "componentId p (elem_id (containers s ! c)) rnd \<in> loadedComponents s")
  case True
  then show ?thesis by (simp add: loadComponent_try_def ids_kept_def)
next
  case False
  define s1 where "s1 = (if opt \<noteq> Some False then showLoadingState c s else s)"
  obtain x s2 where f: "fetch_component e p s1 = (x, s2)"
    by (cases "fetch_component e p s1")
  have k1: "ids_kept s s1"
    by (simp add: s1_def ids_kept_def)
  have k2: "ids_kept s1 s2"
    using ids_kept_fetch_component [of s1 e p] f by simp
  show ?thesis
  proof (cases x)
    case (Inl m)
    with False f ids_kept_trans [OF k1 k2] show ?thesis
      by (simp add: loadComponent_try_def Let_def s1_def [symmetric])
  next
    case (Inr h)
    with False f have "snd (loadComponent_try e s c p opt rnd)
        = snd (install_component e c p (componentId p (elem_id (containers s ! c)) rnd) h s2)"
      by (simp add: loadComponent_try_def Let_def s1_def [symmetric])
    with ids_kept_install_component [of s2 e c p _ h] ids_kept_trans [OF k1 k2] show ?thesis
      by (auto intro: ids_kept_trans)
  qed
qed

text \<open>The definitions a concrete load is evaluated with.\<close>

lemmas loader_eval =
  loadComponent_def loadComponent_try_def install_component_def fetch_component_def
  initializeComponentScripts_def initializeComponentStyles_def set_innerHTML_def
  showLoadingState_def showErrorState_def componentId_def document_nodes_def
  executeInlineScript_def loadExternalScript_def src_property_def href_property_def
  dataset_component_def response_ok_def Let_def

subsection \<open>Loading a fragment twice\<close>







subsection \<open>A fetch that fails\<close>

text \<open>
  Claim C2. A load that reaches the fetch (the component id is not recorded as loaded and
  the path is not cached) and whose request fails, by a network failure or by a response
  that is not ok, returns normally; afterwards the container holds the
  \<open>component-error\<close> block. The request was issued once, no event was dispatched,
  and nothing was cached or recorded as loaded.
\<close>

theorem failed_fetch_shows_error:
  assumes c: "c < length (containers s)"
    and new: "componentId p (elem_id (containers s ! c)) rnd \<notin> loadedComponents s"
    and miss: "componentCache s p = None"
    and fail: "net e p = Network_failure m \<or>
               (\<exists>status h. net e p = Response status h \<and> \<not> response_ok status)"
  shows "\<exists>s' msg. loadComponent e s c p opt rnd = Inr s' \<and>
           innerHTML (containers s' ! c) = [Block_el ''component-error'' msg] \<and>
           fetch_log s' = fetch_log s @ [p] \<and>
           events s' = events s \<and>
           loadedComponents s' = loadedComponents s \<and>
           componentCache s' = componentCache s"
proof -
  define s1 where "s1 = (if opt \<noteq> Some False then showLoadingState c s else s)"
  have m1: "componentCache s1 p = None"
    using miss by (simp add: s1_def)
  obtain msg where f: "fetch_component e p s1 = (Inl msg, s1\<lparr>fetch_log := fetch_log s1 @ [p]\<rparr>)"
    using fetch_component_failed [OF m1 fail] by blast
  have l: "loadComponent e s c p opt rnd = Inr (showErrorState c msg (s1\<lparr>fetch_log := fetch_log s1 @ [p]\<rparr>))"
    using c new f by (simp add: loadComponent_def loadComponent_try_def Let_def s1_def [symmetric])
  have "c < length (containers (s1\<lparr>fetch_log := fetch_log s1 @ [p]\<rparr>))"
    using c by (simp add: s1_def)
  then have "innerHTML (containers (showErrorState c msg (s1\<lparr>fetch_log := fetch_log s1 @ [p]\<rparr>)) ! c)
      = [Block_el ''component-error'' msg]"
    unfolding showErrorState_def by (rule set_innerHTML_same)
  with l show ?thesis
    by (auto simp: showErrorState_def s1_def)
qed


text \<open>On the example page: a path the server answers with 404.\<close>

theorem failed_fetch_shows_error_witness:
  "net demo_env ''missing.html'' = Response 404 [] \<and> \<not> response_ok 404 \<and>
   (\<exists>s' msg. loadComponent demo_env demo_page 0 ''missing.html'' None ''0.5'' = Inr s' \<and>
           innerHTML (containers s' ! 0) = [Block_el ''component-error'' msg] \<and>
           fetch_log s' = fetch_log demo_page @ [''missing.html''] \<and>
           events s' = events demo_page \<and>
           loadedComponents s' = loadedComponents demo_page \<and>
           componentCache s' = componentCache demo_page)"
proof -
  have a: "0 < length (containers demo_page)"
    by (simp add: demo_page_def header_fragment_def)
  have b: "componentId ''missing.html'' (elem_id (containers demo_page ! 0)) ''0.5'' \<notin> loadedComponents demo_page"
    by (simp add: demo_page_def header_fragment_def)
  have d: "componentCache demo_page ''missing.html'' = None"
    by (simp add: demo_page_def header_fragment_def)
  have e: "net demo_env ''missing.html'' = Response 404 []" "\<not> response_ok 404"
    by (simp_all add: demo_env_def response_ok_def)
  then have f: "net demo_env ''missing.html'' = Network_failure [] \<or>
               (\<exists>status h. net demo_env ''missing.html'' = Response status h \<and> \<not> response_ok status)"
    by blast
  show ?thesis
    using failed_fetch_shows_error [OF a b d f, of None] e by simp
qed


subsection \<open>Loading again into the same container\<close>

text \<open>
  Claim C10. For a container with a non-empty id, when a load of \<open>p\<close> into it
  has succeeded (it returned and dispatched \<open>componentLoaded\<close>), the component id
  is recorded in \<open>loadedComponents\<close>, and a second load of \<open>p\<close> into the same
  container, whatever its options, returns the page as it is: no request, no assignment
  to the container, no event.
\<close>

theorem repeated_load_is_noop:
  assumes idn: "elem_id (containers s ! c) \<noteq> []"
    and first: "loadComponent e s c p o1 r1 = Inr s1"
    and loaded: "events s1 = events s @ [(c, p)]"
  shows "componentId p (elem_id (containers s ! c)) r1 \<in> loadedComponents s1 \<and>
         loadComponent e s1 c p o2 r2 = Inr s1"
proof -
  have c: "c < length (containers s)"
    using first by (auto simp: loadComponent_def split: if_splits)
  obtain r s' where t: "loadComponent_try e s c p o1 r1 = (r, s')"
    by (cases "loadComponent_try e s c p o1 r1")
  have es: "events s' = events s1"
    using first c t by (cases r) (auto simp: loadComponent_def showErrorState_def)
  then have ne: "events s' \<noteq> events s"
    using loaded by simp
  from loadComponent_try_recorded [OF t ne]
  have rec: "componentId p (elem_id (containers s ! c)) r1 \<in> loadedComponents s'" and r: "r = None"
    by simp_all
  have s1: "s1 = s'"
    using first c t r by (simp add: loadComponent_def)
  have fr: "length (containers s1) = length (containers s)" "elem_id (containers s1 ! c) = elem_id (containers s ! c)"
    using ids_kept_loadComponent_try [of s e c p o1 r1] t s1 by (simp_all add: ids_kept_def)
  have same: "componentId p (elem_id (containers s1 ! c)) r2 = componentId p (elem_id (containers s ! c)) r1"
    using idn fr by (simp add: componentId_def)
  show ?thesis
    using rec s1 c fr same by (simp add: loadComponent_def loadComponent_try_def)
qed



text \<open>On the example page: \<open>header.html\<close> into \<open>#header\<close>, twice.\<close>

theorem repeated_load_is_noop_witness:
  "elem_id (containers demo_page ! 0) = ''header'' \<and>
   componentId ''header.html'' ''header'' ''0.5''
     \<in> loadedComponents (projr (loadComponent demo_env demo_page 0 ''header.html'' None ''0.5'')) \<and>
   loadComponent demo_env (projr (loadComponent demo_env demo_page 0 ''header.html'' None ''0.5'')) 0 ''header.html'' None ''0.7''
     = Inr (projr (loadComponent demo_env demo_page 0 ''header.html'' None ''0.5''))"
proof -
  have a: "elem_id (containers demo_page ! 0) = ''header''"
    by (simp add: demo_page_def header_fragment_def)
  then have a': "elem_id (containers demo_page ! 0) \<noteq> []"
    by simp
  have b: "loadComponent demo_env demo_page 0 ''header.html'' None ''0.5''
      = Inr (projr (loadComponent demo_env demo_page 0 ''header.html'' None ''0.5''))"
    by (simp add: loader_eval demo_env_def demo_page_def header_fragment_def)
  have c: "events (projr (loadComponent demo_env demo_page 0 ''header.html'' None ''0.5'')) = events demo_page @ [(0, ''header.html'')]"
    by (simp add: loader_eval demo_env_def demo_page_def header_fragment_def)
  show ?thesis
    using repeated_load_is_noop [OF a' b c, of None "''0.7''"] a by simp
qed


subsection \<open>Scripts and styles of a fragment in the head\<close>

text \<open>
  For external scripts the check works: the element that \<open>loadExternalScript\<close>
  appends carries the \<open>src\<close> it is looked up by, so a second call for the same
  \<open>src\<close> changes nothing.
\<close>

lemma loadExternalScript_twice:
  "snd (loadExternalScript e u (snd (loadExternalScript e u s))) = snd (loadExternalScript e u s)"
  by (simp add: loadExternalScript_def document_nodes_def)


text \<open>
  Claim C8 fails on the code. The header fragment of the example page has an inline style
  without a \<open>data-component\<close> attribute; the style is looked up under the name
  \<open>undefined\<close>, which no clone in the head carries, so every load of the fragment
  appends one more copy: after the loads into \<open>#header\<close> and \<open>#footer\<close>
  the head holds the style twice.
\<close>

theorem unnamed_style_duplicated:
  "head_els (projr (loadComponent demo_env (projr (loadComponent demo_env demo_page 0 ''header.html'' None ''0.5'')) 1 ''header.html'' None ''0.7''))
     = [Style_el None ''.nav{}'', Style_el None ''.nav{}'']"
  by (simp add: loader_eval demo_env_def demo_page_def header_fragment_def)

text \<open>
  The same happens to a stylesheet link whose \<open>href\<close> is written relative to the
  page: it is looked up by its resolved \<open>href\<close>, which the clone in the head,
  with the attribute as written, does not carry.
\<close>

lemma relative_link_duplicated:
  "head_els (projr (loadComponent link_env (projr (loadComponent link_env demo_page 0 ''nav.html'' None ''0.5'')) 1 ''nav.html'' None ''0.7''))
     = [Link_el ''stylesheet'' (Some ''css/nav.css''), Link_el ''stylesheet'' (Some ''css/nav.css'')]"
  by (simp add: loader_eval link_env_def demo_page_def)

section \<open>Properties of the particle effects\<close>

subsection \<open>The wave\<close>

text \<open>
  One update of a wave particle, in closed form: the pointer moves it by at most 20
  horizontally and 40 vertically, then the horizontal position goes a twentieth of the
  way back to \<open>originalX\<close> and the vertical position is the base line plus the two
  sine terms.
\<close>

lemma force_bounds:
  assumes "0 \<le> d" "d < 120"
  shows "0 \<le> (1 - d / 120) * 40" "(1 - d / 120) * (40::real) \<le> 40"
  using assms by simp_all

lemma scaled_bound:
  fixes c f :: real
  assumes "\<bar>c\<bar> \<le> 1" "0 \<le> f" "f \<le> m"
  shows "\<bar>c * f\<bar> \<le> m"
proof -
  have "\<bar>c * f\<bar> = \<bar>c\<bar> * f"
    using assms(2) by (simp add: abs_mult)
  also have "\<dots> \<le> 1 * f"
    using assms(1,2) by (rule mult_right_mono)
  finally show ?thesis
    using assms(3) by simp
qed

lemma updateParticle_shape:
  assumes "wave_ok w"
  shows "\<exists>a b s1 s2. \<bar>a\<bar> \<le> 20 \<and> \<bar>b\<bar> \<le> 40 \<and> \<bar>s1\<bar> \<le> 1 \<and> \<bar>s2\<bar> \<le> 1 \<and>
           updateParticle w i p =
             p\<lparr>wx := (wx p - a) + (originalX p - (wx p - a)) * 0.05,
               wy := baseY p + s1 * 80 - b + s2\<rparr>"
proof -
  define y0 where "y0 = baseY p + sin (real i * waveFrequency w + time w) * waveAmplitude w"
  define d where "d = sqrt ((mouseX w - wx p) * (mouseX w - wx p) + (mouseY w - y0) * (mouseY w - y0))"
  define f where "f = (1 - d / 120) * 40"
  define g where "g = atan2 (mouseY w - y0) (mouseX w - wx p)"
  have amp: "waveAmplitude w = 80" and rad: "mouseRadius w = 120"
    using assms by (simp_all add: wave_ok_def)
  have d0: "0 \<le> d"
    by (simp add: d_def)
  show ?thesis
  proof (cases "mouseX w \<noteq> 0 \<and> mouseY w \<noteq> 0 \<and> d < 120")
    case True
    then have f: "0 \<le> f" "f \<le> 40"
      using force_bounds [OF d0] by (simp_all add: f_def)
    have a: "\<bar>cos g * f * 0.5\<bar> \<le> 20"
      using scaled_bound [of "cos g" f 40] f by simp
    have b: "\<bar>sin g * f\<bar> \<le> 40"
      using scaled_bound [of "sin g" f 40] f by simp
    have "updateParticle w i p =
        p\<lparr>wx := (wx p - cos g * f * 0.5) + (originalX p - (wx p - cos g * f * 0.5)) * 0.05,
          wy := baseY p + sin (real i * waveFrequency w + time w) * 80 - sin g * f
                + sin (time w * speed p + offset p)\<rparr>"
      using True unfolding f_def g_def d_def y0_def
      by (simp add: updateParticle_def Let_def amp rad)
    with a b show ?thesis
      using abs_sin_le_one by blast
  next
    case False
    then have "updateParticle w i p =
        p\<lparr>wx := (wx p - 0) + (originalX p - (wx p - 0)) * 0.05,
          wy := baseY p + sin (real i * waveFrequency w + time w) * 80 - 0
                + sin (time w * speed p + offset p)\<rparr>"
      unfolding d_def y0_def
      by (auto simp: updateParticle_def Let_def amp rad)
    moreover have "\<bar>0::real\<bar> \<le> 20" "\<bar>0::real\<bar> \<le> 40"
      by simp_all
    ultimately show ?thesis
      using abs_sin_le_one by blast
  qed
qed

lemma updateParticle_inv:
  assumes ok: "wave_ok w" and inv: "wave_inv width height p"
  shows "wave_inv width height (updateParticle w i p)"
proof -
  obtain a b s1 s2 where ab: "\<bar>a\<bar> \<le> 20" "\<bar>b\<bar> \<le> 40" "\<bar>s1\<bar> \<le> 1" "\<bar>s2\<bar> \<le> (1::real)"
    and u: "updateParticle w i p =
             p\<lparr>wx := (wx p - a) + (originalX p - (wx p - a)) * 0.05,
               wy := baseY p + s1 * 80 - b + s2\<rparr>"
    using updateParticle_shape [OF ok, of i p] by blast
  have x: "\<bar>wx p - originalX p\<bar> \<le> 380"
    using inv by (simp add: wave_inv_def)
  have "\<bar>(wx p - a) + (originalX p - (wx p - a)) * 0.05 - originalX p\<bar> \<le> 380"
    using x ab(1) by (simp add: abs_le_iff field_simps)
  moreover have "\<bar>baseY p + s1 * 80 - b + s2 - baseY p\<bar> \<le> 121"
    using ab by (simp add: abs_le_iff)
  ultimately show ?thesis
    using inv by (simp add: wave_inv_def u)
qed


text \<open>The invariant goes through a frame, an event and a run of events.\<close>

lemma set_map_enumerate:
  "q \<in> set (map (\<lambda>(i, p). f i p) (enumerate n ps)) \<Longrightarrow> \<exists>i p. p \<in> set ps \<and> q = f i p"
proof -
  assume "q \<in> set (map (\<lambda>(i, p). f i p) (enumerate n ps))"
  then obtain i p where ip: "(i, p) \<in> set (enumerate n ps)" and q: "q = f i p"
    by auto
  from ip have "p \<in> set ps"
    by (auto simp: in_set_enumerate_eq)
  with q show ?thesis by blast
qed

lemma updateParticles_inv:
  assumes "wave_ok w" and "\<forall>p\<in>set (particles w). wave_inv width height p"
  shows "\<forall>p\<in>set (particles (updateParticles w)). wave_inv width height p"
proof (cases "isActive w")
  case False
  with assms(2) show ?thesis by (simp add: updateParticles_def)
next
  case True
  show ?thesis
  proof
    fix q assume "q \<in> set (particles (updateParticles w))"
    with True have "q \<in> set (map (\<lambda>(index, p). updateParticle w index p) (enumerate 0 (particles w)))"
      by (simp add: updateParticles_def)
    then obtain i p where "p \<in> set (particles w)" "q = updateParticle w i p"
      using set_map_enumerate [of q "updateParticle w" 0 "particles w"] by blast
    with assms show "wave_inv width height q"
      by (simp add: updateParticle_inv)
  qed
qed

lemma wave_ok_updateParticles: "wave_ok (updateParticles w) = wave_ok w"
  by (simp add: updateParticles_def wave_ok_def)

lemma wave_ok_animate: "wave_ok (animate w) = wave_ok w"
  by (simp add: animate_def wave_ok_updateParticles) (simp add: wave_ok_def)

lemma animate_inv:
  assumes "wave_ok w" and "\<forall>p\<in>set (particles w). wave_inv width height p"
  shows "\<forall>p\<in>set (particles (animate w)). wave_inv width height p"
proof -
  have "wave_ok (w\<lparr>time := time w + waveSpeed w\<rparr>)"
    using assms(1) by (simp add: wave_ok_def)
  moreover have "\<forall>p\<in>set (particles (w\<lparr>time := time w + waveSpeed w\<rparr>)). wave_inv width height p"
    using assms(2) by simp
  ultimately show ?thesis
    unfolding animate_def by (rule updateParticles_inv)
qed

lemma wave_step_inv:
  assumes "wave_ok w" and "\<forall>p\<in>set (particles w). wave_inv width height p"
  shows "wave_ok (wave_step w ev) \<and> (\<forall>p\<in>set (particles (wave_step w ev)). wave_inv width height p)"
proof (cases ev)
  case Animation_frame
  with assms show ?thesis
    using animate_inv [OF assms] by (simp add: wave_ok_animate)
qed (use assms in \<open>simp_all add: wave_ok_def\<close>)

lemma wave_run_inv:
  assumes "wave_ok w" and "\<forall>p\<in>set (particles w). wave_inv width height p"
  shows "wave_ok (wave_run w evs) \<and> (\<forall>p\<in>set (particles (wave_run w evs)). wave_inv width height p)"
  using assms unfolding wave_run_def
proof (induction evs arbitrary: w)
  case Nil
  then show ?case by simp
next
  case (Cons ev evs)
  from wave_step_inv [OF Cons.prems, of ev]
  have "wave_ok (wave_step w ev)" "\<forall>p\<in>set (particles (wave_step w ev)). wave_inv width height p"
    by simp_all
  from Cons.IH [OF this] show ?case by simp
qed

text \<open>The constructor establishes the invariant.\<close>

lemma spacing_bounds:
  fixes width :: real
  assumes "0 \<le> width" "i < n" "1 < n"
  shows "0 \<le> real i * (width / (real n - 1))" "real i * (width / (real n - 1)) \<le> width"
proof -
  have n: "0 < real n - 1"
    using assms(3) by simp
  have i: "real i \<le> real n - 1"
    using assms(2) by linarith
  show "0 \<le> real i * (width / (real n - 1))"
    using assms(1) n by simp
  have "real i * (width / (real n - 1)) \<le> (real n - 1) * (width / (real n - 1))"
    using i assms(1) n by (intro mult_right_mono) simp_all
  also have "\<dots> = width"
    using n by simp
  finally show "real i * (width / (real n - 1)) \<le> width" .
qed

lemma createParticle_inv:
  assumes "0 \<le> canvas_width w" "i < numberOfParticles w" "1 < numberOfParticles w"
    and "centerY w = canvas_height w / 2"
  shows "wave_inv (canvas_width w) (canvas_height w) (createParticle w rs i)"
  using spacing_bounds [OF assms(1,2,3)] assms(4)
  by (simp add: wave_inv_def createParticle_def Let_def)

lemma ParticleWave_new_inv:
  assumes new: "ParticleWave_new win True True rs = Inr (Some w, eff)"
    and width: "0 \<le> innerWidth win"
  shows "wave_ok w \<and> (\<forall>p\<in>set (particles w). wave_inv (innerWidth win) (innerHeight win) p)"
proof -
  define w0 where "w0 = \<lparr>canvas_width = 0, canvas_height = 0, centerY = 0, particles = [],
                   numberOfParticles = (if innerWidth win < 768 then 40 else 60),
                   waveAmplitude = 80, waveFrequency = 0.008, waveSpeed = 0.015,
                   time = 0, mouseX = 0, mouseY = 0, mouseRadius = 120, isActive = True\<rparr>"
  define w1 where "w1 = resize win w0"
  define w2 where "w2 = createParticles rs w1"
  have w: "w = animate w2"
    using new by (simp add: ParticleWave_new_def Let_def w0_def w1_def w2_def)
  have f1: "canvas_width w1 = innerWidth win" "canvas_height w1 = innerHeight win"
    "centerY w1 = canvas_height w1 / 2" "1 < numberOfParticles w1" "wave_ok w1"
    by (simp_all add: w1_def resize_def w0_def wave_ok_def)
  have ok2: "wave_ok w2"
    using f1(5) by (simp add: w2_def createParticles_def wave_ok_def)
  have "\<forall>p\<in>set (particles w2). wave_inv (innerWidth win) (innerHeight win) p"
  proof
    fix p assume "p \<in> set (particles w2)"
    then obtain i where "i < numberOfParticles w1" "p = createParticle w1 rs i"
      by (auto simp: w2_def createParticles_def)
    then show "wave_inv (innerWidth win) (innerHeight win) p"
      using createParticle_inv [of w1 i rs] f1 width by simp
  qed
  with ok2 show ?thesis
    unfolding w by (simp add: wave_ok_animate animate_inv)
qed

lemma wave_inv_bounds:
  assumes "wave_inv width height p"
  shows "- 380 \<le> wx p \<and> wx p \<le> width + 380 \<and>
         height / 2 - 121 \<le> wy p \<and> wy p \<le> height / 2 + 121"
  using assms by (simp add: wave_inv_def abs_le_iff)

subsection \<open>Particles with a velocity\<close>

lemma unit_randomD: "unit_random rs \<Longrightarrow> 0 \<le> rs i \<and> rs i < 1"
  by (simp add: unit_random_def)

lemma unit_scaled:
  fixes r width :: real
  assumes "0 \<le> r" "r < 1" "0 \<le> width"
  shows "0 \<le> r * width" "r * width \<le> width"
proof -
  show "0 \<le> r * width"
    using assms by simp
  have "r * width \<le> 1 * width"
    using assms by (intro mult_right_mono) simp_all
  then show "r * width \<le> width" by simp
qed

lemma wrap_particle_in_canvas:
  "0 \<le> width \<Longrightarrow> 0 \<le> height \<Longrightarrow> in_canvas width height (wrap_particle width height p)"
  by (simp add: in_canvas_def wrap_particle_def Let_def)

lemma button_particle_in_canvas:
  assumes "0 \<le> width" "0 \<le> height" "0 \<le> r1 \<and> r1 < 1" "0 \<le> r2 \<and> r2 < 1"
  shows "in_canvas width height (button_particle width height r1 r2 r3 r4)"
  using unit_scaled [of r1 width] unit_scaled [of r2 height] assms
  by (simp add: in_canvas_def button_particle_def)

lemma button_frames_in_canvas:
  assumes "0 \<le> width" "0 \<le> height" "\<forall>p\<in>set ps. in_canvas width height p"
  shows "\<forall>p\<in>set (button_frames width height n ps). in_canvas width height p"
  using assms(3)
proof (induction n arbitrary: ps)
  case 0
  then show ?case by simp
next
  case (Suc n)
  have "\<forall>p\<in>set (map (wrap_particle width height) ps). in_canvas width height p"
    using assms(1,2) by (simp add: wrap_particle_in_canvas)
  from Suc.IH [OF this] show ?case by simp
qed

lemma button_particles_in_canvas:
  assumes "0 \<le> width" "0 \<le> height" "unit_random rs"
  shows "\<forall>p\<in>set (button_particles width height rs). in_canvas width height p"
  using assms
  by (auto simp: button_particles_def intro!: button_particle_in_canvas dest: unit_randomD)

lemma dom_particle_inv:
  assumes "0 \<le> width" "0 \<le> height" "0 \<le> r1 \<and> r1 < 1" "0 \<le> r2 \<and> r2 < 1"
    "0 \<le> r3 \<and> r3 < 1" "0 \<le> r4 \<and> r4 < 1"
  shows "dom_inv width height (dom_particle width height r1 r2 r3 r4)"
  using unit_scaled [of r1 width] assms
  by (simp add: dom_inv_def dom_particle_def abs_le_iff)

lemma animateParticle_inv:
  assumes w: "0 \<le> width" and h: "0 \<le> height" and r: "0 \<le> r \<and> r < 1"
    and inv: "dom_inv width height p"
  shows "dom_inv width height (animateParticle width height r p)"
proof (cases "pos_y p + vel_y p < - 50")
  case True
  have "0 \<le> r * width" "r * width \<le> width"
    using unit_scaled [of r width] r w by simp_all
  with True inv h show ?thesis
    by (simp add: dom_inv_def animateParticle_def Let_def)
next
  case False
  with inv h show ?thesis
    by (auto simp: dom_inv_def animateParticle_def Let_def)
qed

lemma animateParticles_inv:
  assumes "0 \<le> width" "0 \<le> height" "unit_random rs" "\<forall>p\<in>set ps. dom_inv width height p"
  shows "\<forall>p\<in>set (animateParticles width height rs ps). dom_inv width height p"
proof
  fix q assume "q \<in> set (animateParticles width height rs ps)"
  then obtain i p where "p \<in> set ps" "q = animateParticle width height (rs i) p"
    unfolding animateParticles_def
    using set_map_enumerate [of q "\<lambda>i. animateParticle width height (rs i)" 0 ps] by blast
  with assms show "dom_inv width height q"
    using animateParticle_inv [of width height "rs i" p] unit_randomD [of rs i] by simp
qed

lemma dom_frames_inv:
  assumes "0 \<le> width" "0 \<le> height" "\<forall>f\<in>set frames. unit_random f"
    "\<forall>p\<in>set ps. dom_inv width height p"
  shows "\<forall>p\<in>set (dom_frames width height frames ps). dom_inv width height p"
  using assms(3,4)
proof (induction frames arbitrary: ps)
  case Nil
  then show ?case by simp
next
  case (Cons f frames)
  have "\<forall>p\<in>set (animateParticles width height f ps). dom_inv width height p"
    using animateParticles_inv [OF assms(1,2), of f ps] Cons.prems by simp
  with Cons show ?case by simp
qed

lemma dom_particles_inv:
  assumes "0 \<le> width" "0 \<le> height" "unit_random rs"
  shows "\<forall>p\<in>set (dom_particles width height rs). dom_inv width height p"
  using assms
  by (auto simp: dom_particles_def intro!: dom_particle_inv dest: unit_randomD)

lemma dom_inv_bounds:
  assumes "dom_inv width height p"
  shows "- 1 \<le> pos_x p \<and> pos_x p \<le> width + 1 \<and> - 50 \<le> pos_y p \<and> pos_y p \<le> height + 100"
  using assms by (auto simp: dom_inv_def abs_le_iff)

subsection \<open>Coordinates stay bounded\<close>

text \<open>
  Claim C3. Whatever the random numbers drawn, for every number of frames and every
  sequence of pointer and visibility events, with a canvas, window or container of a
  fixed size that is not negative: a particle of a button canvas, which wraps, stays
  inside the canvas; a particle of the wave, which goes back towards its place, stays
  within 380 of the canvas horizontally and within 121 of the middle line vertically;
  a particle of the particle container, which is reset at the top edge, stays within
  1 of the container horizontally, and vertically between 50 above and 100 below it.
\<close>

theorem particles_stay_bounded:
  assumes "0 \<le> width" and "0 \<le> height" and "unit_random rs"
    and "\<forall>f\<in>set frames. unit_random f"
    and "0 \<le> innerWidth win"
    and "ParticleWave_new win True True rs = Inr (Some w, eff)"
  shows "(\<forall>p\<in>set (button_frames width height n (button_particles width height rs)).
            0 \<le> pos_x p \<and> pos_x p \<le> width \<and> 0 \<le> pos_y p \<and> pos_y p \<le> height) \<and>
         (\<forall>p\<in>set (particles (wave_run w evs)).
            - 380 \<le> wx p \<and> wx p \<le> innerWidth win + 380 \<and>
            innerHeight win / 2 - 121 \<le> wy p \<and> wy p \<le> innerHeight win / 2 + 121) \<and>
         (\<forall>p\<in>set (dom_frames width height frames (dom_particles width height rs)).
            - 1 \<le> pos_x p \<and> pos_x p \<le> width + 1 \<and>
            - 50 \<le> pos_y p \<and> pos_y p \<le> height + 100)"
proof -
  have a: "\<forall>p\<in>set (button_frames width height n (button_particles width height rs)).
      in_canvas width height p"
    using button_frames_in_canvas [OF assms(1,2) button_particles_in_canvas [OF assms(1,2,3)]] .
  have "wave_ok w" "\<forall>p\<in>set (particles w). wave_inv (innerWidth win) (innerHeight win) p"
    using ParticleWave_new_inv [OF assms(6,5)] by simp_all
  from wave_run_inv [OF this, of evs]
  have b: "\<forall>p\<in>set (particles (wave_run w evs)). wave_inv (innerWidth win) (innerHeight win) p"
    by simp
  have c: "\<forall>p\<in>set (dom_frames width height frames (dom_particles width height rs)).
      dom_inv width height p"
    using dom_frames_inv [OF assms(1,2,4) dom_particles_inv [OF assms(1,2,3)]] .
  have b': "\<forall>p\<in>set (particles (wave_run w evs)).
      - 380 \<le> wx p \<and> wx p \<le> innerWidth win + 380 \<and>
      innerHeight win / 2 - 121 \<le> wy p \<and> wy p \<le> innerHeight win / 2 + 121"
    using b wave_inv_bounds by blast
  have c': "\<forall>p\<in>set (dom_frames width height frames (dom_particles width height rs)).
      - 1 \<le> pos_x p \<and> pos_x p \<le> width + 1 \<and> - 50 \<le> pos_y p \<and> pos_y p \<le> height + 100"
    using c dom_inv_bounds by blast
  show ?thesis
    using a b' c' by (simp add: in_canvas_def)
qed

text \<open>
  On a button of 300 by 100 and in the example window, every random number one half,
  after two frames, with the pointer moved onto the canvas between them.
\<close>

theorem particles_stay_bounded_witness:
  "unit_random (\<lambda>i. 1 / 2) \<and>
   list_all (\<lambda>p. 0 \<le> pos_x p \<and> pos_x p \<le> 300 \<and> 0 \<le> pos_y p \<and> pos_y p \<le> 100)
     (button_frames 300 100 2 (button_particles 300 100 (\<lambda>i. 1 / 2))) \<and>
   list_all (\<lambda>p. - 380 \<le> wx p \<and> wx p \<le> 1024 + 380 \<and> 768 / 2 - 121 \<le> wy p \<and> wy p \<le> 768 / 2 + 121)
     (particles (wave_run (the (fst (projr (ParticleWave_new demo_window True True (\<lambda>i. 1 / 2)))))
        [Animation_frame, Pointer_move 100 384, Animation_frame])) \<and>
   list_all (\<lambda>p. - 1 \<le> pos_x p \<and> pos_x p \<le> 300 + 1 \<and> - 50 \<le> pos_y p \<and> pos_y p \<le> 100 + 100)
     (dom_frames 300 100 [\<lambda>i. 1 / 2, \<lambda>i. 1 / 2] (dom_particles 300 100 (\<lambda>i. 1 / 2)))"
proof -
  have r: "unit_random (\<lambda>i. 1 / 2)"
    by (simp add: unit_random_def)
  have f: "\<forall>f\<in>set [\<lambda>i. 1 / 2, \<lambda>i. 1 / 2]. unit_random f"
    using r by simp
  have n: "ParticleWave_new demo_window True True (\<lambda>i. 1 / 2)
      = Inr (Some (the (fst (projr (ParticleWave_new demo_window True True (\<lambda>i. 1 / 2))))),
             snd (projr (ParticleWave_new demo_window True True (\<lambda>i. 1 / 2))))"
    by (simp add: ParticleWave_new_def Let_def)
  have w: "0 \<le> innerWidth demo_window" "innerWidth demo_window = 1024" "innerHeight demo_window = 768"
    by (simp_all add: demo_window_def)
  show ?thesis
    using particles_stay_bounded [of 300 100 "\<lambda>i. 1 / 2" "[\<lambda>i. 1 / 2, \<lambda>i. 1 / 2]" demo_window _ _ 2
        "[Animation_frame, Pointer_move 100 384, Animation_frame]", OF _ _ r f w(1) n] r
    by (simp add: list_all_iff w)
qed

subsection \<open>The pointer and the wave\<close>

lemma updateParticles_nth:
  assumes "isActive w" "i < length (particles w)"
  shows "particles (updateParticles w) ! i = updateParticle w i (particles w ! i)"
  using assms by (simp add: updateParticles_def nth_enumerate_eq)

lemma updateParticle_near:
  assumes "mouseX w \<noteq> 0" "mouseY w \<noteq> 0" "pointer_distance w i p < mouseRadius w"
  shows "updateParticle w i p =
           p\<lparr>wx := (let x1 = wx p - cos (pointer_angle w i p)
                                * ((1 - pointer_distance w i p / mouseRadius w) * 40) * 0.5
                      in x1 + (originalX p - x1) * 0.05),
             wy := wave_y w i p
                   - sin (pointer_angle w i p) * ((1 - pointer_distance w i p / mouseRadius w) * 40)
                   + sin (time w * speed p + offset p) * 1\<rparr>"
  using assms unfolding pointer_distance_def pointer_angle_def wave_y_def updateParticle_def
  by (simp add: Let_def)

lemma updateParticle_far:
  assumes "\<not> pointer_distance w i p < mouseRadius w"
  shows "updateParticle w i p =
           p\<lparr>wx := wx p + (originalX p - wx p) * 0.05,
             wy := wave_y w i p + sin (time w * speed p + offset p) * 1\<rparr>"
  using assms unfolding pointer_distance_def pointer_angle_def wave_y_def updateParticle_def
  by (simp add: Let_def)

text \<open>
  Claim C9, as amended. In an update of an active wave, while both coordinates of the
  pointer are different from zero: a particle whose distance \<open>d\<close> from the pointer is
  less than the radius \<open>r\<close> is moved away from the pointer, by
  \<open>20 * (r - d) / r\<close> times the cosine of the angle horizontally and by
  \<open>40 * (r - d) / r\<close> times its sine vertically, before the horizontal position goes
  a twentieth of the way back to \<open>originalX\<close>; a particle at distance \<open>r\<close> or
  more is not moved by the pointer, its horizontal distance from \<open>originalX\<close>
  shrinks to 95 percent, and its height is the height of the wave at \<open>baseY\<close> plus
  the floating term.
\<close>

theorem pointer_displacement:
  assumes "isActive w" and "i < length (particles w)"
    and "mouseX w \<noteq> 0" and "mouseY w \<noteq> 0" and "0 < mouseRadius w"
  shows
    "(let p = particles w ! i;
          q = particles (updateParticles w) ! i;
          r = mouseRadius w;
          d = pointer_distance w i p;
          g = pointer_angle w i p;
          floating = sin (time w * speed p + offset p)
      in (d < r \<longrightarrow>
            wx q = (wx p - cos g * 20 * ((r - d) / r))
                   + (originalX p - (wx p - cos g * 20 * ((r - d) / r))) * 0.05 \<and>
            wy q = wave_y w i p - sin g * 40 * ((r - d) / r) + floating) \<and>
         (\<not> d < r \<longrightarrow>
            wx q - originalX p = 0.95 * (wx p - originalX p) \<and>
            wy q = wave_y w i p + floating))"
proof -
  define p where "p = particles w ! i"
  define r where "r = mouseRadius w"
  define d where "d = pointer_distance w i p"
  define g where "g = pointer_angle w i p"
  define k where "k = (r - d) / r"
  have force: "40 - d * 40 / r = 40 * k"
    using assms(5) by (simp add: k_def r_def field_simps)
  have q: "particles (updateParticles w) ! i = updateParticle w i p"
    using updateParticles_nth [OF assms(1,2)] by (simp add: p_def)
  have near: "wx (updateParticle w i p) = (wx p - cos g * 20 * k) + (originalX p - (wx p - cos g * 20 * k)) * 0.05 \<and>
      wy (updateParticle w i p) = wave_y w i p - sin g * 40 * k + sin (time w * speed p + offset p)"
    if "d < r"
    using updateParticle_near [OF assms(3,4), of i p] that
    by (simp add: d_def [symmetric] g_def [symmetric] r_def [symmetric] force Let_def)
  have far: "wx (updateParticle w i p) - originalX p = 0.95 * (wx p - originalX p) \<and>
      wy (updateParticle w i p) = wave_y w i p + sin (time w * speed p + offset p)"
    if "\<not> d < r"
    using updateParticle_far [of w i p] that
    by (simp add: d_def [symmetric] r_def [symmetric] diff_divide_distrib)
  show ?thesis
    unfolding Let_def q
    unfolding p_def [symmetric] r_def [symmetric]
    unfolding d_def [symmetric] g_def [symmetric]
    using near far unfolding k_def by blast
qed

lemma sqrt_90000: "sqrt 90000 = 300"
  by (rule real_sqrt_unique) simp_all

text \<open>
  On the example wave. With the pointer on the particle at \<open>(100, 50)\<close> the distance
  is 0 and the angle is 0: the particle is pushed 20 to the left and comes back by 1.
  With the pointer at \<open>(400, 50)\<close> the distance is 300: the particle stays.
\<close>

theorem pointer_displacement_witness:
  "wx (particles (updateParticles (demo_wave 100 100 50)) ! 0) = 81 \<and>
   wy (particles (updateParticles (demo_wave 100 100 50)) ! 0) = 50 \<and>
   wx (particles (updateParticles (demo_wave 100 400 50)) ! 0) = 100 \<and>
   wy (particles (updateParticles (demo_wave 100 400 50)) ! 0) = 50"
  using pointer_displacement [of "demo_wave 100 100 50" 0]
    pointer_displacement [of "demo_wave 100 400 50" 0]
  by (simp add: demo_wave_def Let_def pointer_distance_def pointer_angle_def wave_y_def
      atan2_def sqrt_90000)

text \<open>
  Claim C9 as it is stated fails where a coordinate of the pointer is zero, which the
  guard \<open>this.mouseX && this.mouseY\<close> takes for no pointer: with the pointer at
  \<open>(0, 50)\<close>, on the particle at rest there, the distance is 0, less than the
  radius, and the update leaves the particle where it is.
\<close>

theorem pointer_at_zero_counterexample:
  "pointer_distance (demo_wave 0 0 50) 0 (particles (demo_wave 0 0 50) ! 0) = 0 \<and>
   mouseRadius (demo_wave 0 0 50) = 120 \<and>
   particles (updateParticles (demo_wave 0 0 50)) = particles (demo_wave 0 0 50)"
  by (simp add: demo_wave_def pointer_distance_def wave_y_def updateParticles_def
      updateParticle_def Let_def)

subsection \<open>A target that is not there\<close>

text \<open>
  Claim C7, as amended. Constructing the wave without its canvas element does nothing:
  the object has no state, no listener is registered, no frame requested and no observer
  started. Loading a component into a container that is not in the document does
  nothing to the page either, but it is an error: \<open>load\<close> throws
  \<open>Container not found\<close> with the selector.
\<close>

theorem absent_target:
  assumes "querySelector s selector = None"
  shows "ParticleWave_new win False has_ctx rs = Inr (None, no_effects) \<and>
         load e s selector p opt rnd = Inl (''Container not found: '' @ selector)"
  using assms by (simp add: ParticleWave_new_def load_def)

text \<open>On the example page, which has no container \<open>#sidebar\<close>.\<close>

theorem absent_target_witness:
  "querySelector demo_page ''#sidebar'' = None \<and>
   ParticleWave_new demo_window False True (\<lambda>i. 1 / 2) = Inr (None, no_effects) \<and>
   load demo_env demo_page ''#sidebar'' ''header.html'' None ''0.5''
     = Inl ''Container not found: #sidebar''"
proof -
  have q: "querySelector demo_page ''#sidebar'' = None"
    by (simp add: querySelector_def demo_page_def)
  show ?thesis
    using absent_target [OF q, of demo_window True "\<lambda>i. 1 / 2" demo_env "''header.html''" None "''0.5''"] q
    by simp
qed

text \<open>
  Claim C7 as it is stated fails for the loader: the load into the missing container
  \<open>#sidebar\<close> does not return the page, it ends in an error.
\<close>

theorem load_missing_container_counterexample:
  "load demo_env demo_page ''#sidebar'' ''header.html'' None ''0.5''
     = Inl ''Container not found: #sidebar''"
  by (simp add: load_def querySelector_def demo_page_def)

section \<open>Properties of the ripple effect\<close>

lemma ripples_fold_remove:
  "ripples (fold (\<lambda>(d, i). remove_ripple i) due b)
     = filter (\<lambda>(i, t). i \<notin> snd ` set due) (ripples b)"
proof (induction due arbitrary: b)
  case Nil
  then show ?case by simp
next
  case (Cons x due)
  obtain d i where x: "x = (d, i)" by (cases x)
  have "ripples (fold (\<lambda>(d, i). remove_ripple i) (x # due) b)
      = filter (\<lambda>(i, t). i \<notin> snd ` set due) (ripples (remove_ripple i b))"
    using Cons.IH [of "remove_ripple i b"] by (simp add: x)
  also have "\<dots> = filter (\<lambda>(i, t). i \<notin> snd ` set (x # due)) (ripples b)"
    by (auto simp: remove_ripple_def x intro!: filter_cong)
  finally show ?case .
qed

lemma fold_remove_fields:
  "now (fold (\<lambda>(d, i). remove_ripple i) due b) = now b"
  "timers (fold (\<lambda>(d, i). remove_ripple i) due b) = timers b"
  "next_node (fold (\<lambda>(d, i). remove_ripple i) due b) = next_node b"
  "clicks (fold (\<lambda>(d, i). remove_ripple i) due b) = clicks b"
  by (induction due arbitrary: b) (auto simp: remove_ripple_def)

lemma advance_fields:
  "now (advance n b) = now b + n"
  "timers (advance n b) = filter (\<lambda>(d, i). \<not> d \<le> now b + n) (timers b)"
  "next_node (advance n b) = next_node b"
  "clicks (advance n b) = clicks b"
  by (simp_all add: advance_def Let_def fold_remove_fields)

lemma advance_ripples_raw:
  "ripples (advance n b)
     = filter (\<lambda>(i, t). i \<notin> snd ` set (filter (\<lambda>(d, i). d \<le> now b + n) (timers b))) (ripples b)"
  by (simp add: advance_def Let_def ripples_fold_remove)

lemma distinct_snd_unique:
  assumes "distinct (map snd xs)" "(a, i) \<in> set xs" "(b, i) \<in> set xs"
  shows "a = b"
proof -
  have "inj_on snd (set xs)"
    using assms(1) by (simp add: distinct_map)
  from inj_onD [OF this _ assms(2,3)] show ?thesis by simp
qed

text \<open>
  Under the invariant, the timeouts that run on an advance of the clock remove exactly
  the nodes that are 600 milliseconds old.
\<close>

lemma advance_ripples:
  assumes "ripple_inv b"
  shows "ripples (advance n b) = filter (\<lambda>(i, t). now b + n < t + 600) (ripples b)"
proof -
  have d: "distinct (map snd (timers b))"
    using assms by (simp add: ripple_inv_def)
  have *: "(i \<notin> snd ` set (filter (\<lambda>(d, i). d \<le> now b + n) (timers b))) = (now b + n < t + 600)"
    if "(i, t) \<in> set (ripples b)" for i t
  proof -
    have own: "(t + 600, i) \<in> set (timers b)"
      using assms that by (auto simp: ripple_inv_def list_all_iff)
    show ?thesis
    proof
      assume a: "i \<notin> snd ` set (filter (\<lambda>(d, i). d \<le> now b + n) (timers b))"
      show "now b + n < t + 600"
      proof (rule ccontr)
        assume "\<not> now b + n < t + 600"
        then have "(t + 600, i) \<in> set (filter (\<lambda>(d, i). d \<le> now b + n) (timers b))"
          using own by simp
        then have "i \<in> snd ` set (filter (\<lambda>(d, i). d \<le> now b + n) (timers b))"
          by (rule image_eqI [rotated]) simp
        with a show False by simp
      qed
    next
      assume a: "now b + n < t + 600"
      show "i \<notin> snd ` set (filter (\<lambda>(d, i). d \<le> now b + n) (timers b))"
      proof
        assume "i \<in> snd ` set (filter (\<lambda>(d, i). d \<le> now b + n) (timers b))"
        then obtain d' where m: "(d', i) \<in> set (timers b)" and le: "d' \<le> now b + n"
          by auto
        have "d' = t + 600"
          using distinct_snd_unique [OF d m own] .
        with le a show False by simp
      qed
    qed
  qed
  have "filter (\<lambda>(i, t). i \<notin> snd ` set (filter (\<lambda>(d, i). d \<le> now b + n) (timers b))) (ripples b)
      = filter (\<lambda>(i, t). now b + n < t + 600) (ripples b)"
    by (rule filter_cong [OF refl]) (use * in auto)
  then show ?thesis
    by (simp only: advance_ripples_raw)
qed

lemma advance_inv:
  assumes "ripple_inv b"
  shows "ripple_inv (advance n b)"
proof -
  have t: "list_all (\<lambda>(d, i). i < next_node b \<and> now b < d) (timers b)"
    and d: "distinct (map snd (timers b))"
    and r: "list_all (\<lambda>(i, t). t \<le> now b \<and> (t + 600, i) \<in> set (timers b)) (ripples b)"
    using assms by (simp_all add: ripple_inv_def)
  have "list_all (\<lambda>(d, i). i < next_node b \<and> now b + n < d)
      (filter (\<lambda>(d, i). \<not> d \<le> now b + n) (timers b))"
    using t by (auto simp: list_all_iff)
  moreover have "distinct (map snd (filter (\<lambda>(d, i). \<not> d \<le> now b + n) (timers b)))"
    using d by (rule distinct_map_filter)
  moreover have "list_all (\<lambda>(i, t). t \<le> now b + n \<and>
        (t + 600, i) \<in> set (filter (\<lambda>(d, i). \<not> d \<le> now b + n) (timers b)))
      (filter (\<lambda>(i, t). now b + n < t + 600) (ripples b))"
    using r by (auto simp: list_all_iff)
  ultimately show ?thesis
    by (simp add: ripple_inv_def advance_ripples [OF assms] advance_fields)
qed

lemma advance_system_inv:
  assumes "system_inv b"
  shows "system_inv (advance n b)"
proof -
  have i: "ripple_inv b" and c: "map snd (ripples b) = filter (\<lambda>t. now b < t + 600) (clicks b)"
    using assms by (simp_all add: system_inv_def)
  have "map snd (filter (\<lambda>(i, t). now b + n < t + 600) (ripples b))
      = filter (\<lambda>t. now b + n < t + 600) (map snd (ripples b))"
    by (simp add: filter_map comp_def case_prod_unfold)
  also have "\<dots> = filter (\<lambda>t. now b + n < t + 600) (clicks b)"
    unfolding c by (auto intro!: filter_cong)
  finally show ?thesis
    using advance_inv [OF i] by (simp add: system_inv_def advance_ripples [OF i] advance_fields)
qed

text \<open>A click keeps the invariants.\<close>

lemma new_timer_inv:
  fixes m k :: nat
  assumes t: "list_all (\<lambda>(d, i). i < k \<and> m < d) ts" and d: "distinct (map snd ts)"
  shows "list_all (\<lambda>(d, i). i < Suc k \<and> m < d) (ts @ [(m + 600, k)])"
    and "distinct (map snd (ts @ [(m + 600, k)]))"
  using assms by (auto simp: list_all_iff)

lemma createRipple_inv:
  assumes "ripple_inv b" "length (ripples b) \<le> 1"
  shows "ripple_inv (createRipple False b) \<and> length (ripples (createRipple False b)) = 1"
proof -
  have t: "list_all (\<lambda>(d, i). i < next_node b \<and> now b < d) (timers b)"
    and d: "distinct (map snd (timers b))"
    using assms(1) by (simp_all add: ripple_inv_def)
  have r: "ripples (createRipple False b) = [(next_node b, now b)]"
    "timers (createRipple False b) = timers b @ [(now b + 600, next_node b)]"
    "next_node (createRipple False b) = Suc (next_node b)"
    "now (createRipple False b) = now b"
    using assms(2)
    by (cases "ripples b"; auto simp: createRipple_def Let_def remove_ripple_def)+
  show ?thesis
    using new_timer_inv [OF t d] by (simp add: ripple_inv_def r)
qed

lemma initRipples_click_inv:
  assumes "system_inv (b\<lparr>clicks := cs\<rparr>)"
  shows "system_inv (initRipples_click (b\<lparr>clicks := cs @ [now b]\<rparr>))"
proof -
  have t: "list_all (\<lambda>(d, i). i < next_node b \<and> now b < d) (timers b)"
    and d: "distinct (map snd (timers b))"
    and r: "list_all (\<lambda>(i, t). t \<le> now b \<and> (t + 600, i) \<in> set (timers b)) (ripples b)"
    and c: "map snd (ripples b) = filter (\<lambda>t. now b < t + 600) cs"
    using assms by (simp_all add: system_inv_def ripple_inv_def)
  have "list_all (\<lambda>(i, t). t \<le> now b \<and> (t + 600, i) \<in> set (timers b @ [(now b + 600, next_node b)]))
      (ripples b @ [(next_node b, now b)])"
    using r by (auto simp: list_all_iff)
  then show ?thesis
    using new_timer_inv [OF t d] c
    by (simp add: system_inv_def ripple_inv_def initRipples_click_def Let_def)
qed

lemma fresh_button_inv: "ripple_inv fresh_button" "system_inv fresh_button"
  by (simp_all add: ripple_inv_def system_inv_def fresh_button_def)

text \<open>The runs: every state reached satisfies the invariants, and nodes are counted.\<close>

lemma controller_run_inv:
  "ripple_inv (controller_run False evs) \<and> length (ripples (controller_run False evs)) \<le> 1 \<and>
   next_node (controller_run False evs) = length (filter is_click evs)"
proof (induction evs rule: rev_induct)
  case Nil
  then show ?case
    by (simp add: controller_run_def fresh_button_inv) (simp add: fresh_button_def)
next
  case (snoc ev evs)
  define b where "b = controller_run False evs"
  have s: "controller_run False (evs @ [ev]) = controller_step False b ev"
    by (simp add: controller_run_def b_def)
  have i: "ripple_inv b" "length (ripples b) \<le> 1" "next_node b = length (filter is_click evs)"
    using snoc by (simp_all add: b_def)
  show ?case
  proof (cases ev)
    case Click
    have i': "ripple_inv (b\<lparr>clicks := clicks b @ [now b]\<rparr>)"
      "length (ripples (b\<lparr>clicks := clicks b @ [now b]\<rparr>)) \<le> 1"
      using i by (simp_all add: ripple_inv_def)
    have "next_node (createRipple False (b\<lparr>clicks := clicks b @ [now b]\<rparr>)) = Suc (next_node b)"
      by (simp add: createRipple_def Let_def remove_ripple_def split: list.splits)
    with createRipple_inv [OF i'] i(3) show ?thesis
      unfolding s by (simp add: Click)
  next
    case (Wait n)
    have "length (ripples (advance n b)) \<le> length (ripples b)"
      by (simp add: advance_ripples [OF i(1)])
    with advance_inv [OF i(1), of n] i show ?thesis
      unfolding s by (simp add: Wait advance_fields)
  qed
qed

lemma system_run_inv:
  "system_inv (system_run evs) \<and> next_node (system_run evs) = length (filter is_click evs)"
proof (induction evs rule: rev_induct)
  case Nil
  then show ?case
    by (simp add: system_run_def fresh_button_inv) (simp add: fresh_button_def)
next
  case (snoc ev evs)
  define b where "b = system_run evs"
  have s: "system_run (evs @ [ev]) = system_step b ev"
    by (simp add: system_run_def b_def)
  have i: "system_inv b" "next_node b = length (filter is_click evs)"
    using snoc by (simp_all add: b_def)
  show ?case
  proof (cases ev)
    case Click
    have "system_inv (b\<lparr>clicks := clicks b\<rparr>)"
      using i(1) by simp
    from initRipples_click_inv [OF this]
    have "system_inv (initRipples_click (b\<lparr>clicks := clicks b @ [now b]\<rparr>))" .
    moreover have "next_node (initRipples_click (b\<lparr>clicks := clicks b @ [now b]\<rparr>)) = Suc (next_node b)"
      by (simp add: initRipples_click_def Let_def)
    ultimately show ?thesis
      unfolding s using i(2) by (simp add: Click)
  next
    case (Wait n)
    with advance_system_inv [OF i(1), of n] i(2) show ?thesis
      unfolding s by (simp add: advance_fields)
  qed
qed

lemma ripple_inv_young:
  assumes "ripple_inv b"
  shows "list_all (\<lambda>(i, t). t \<le> now b \<and> now b < t + 600) (ripples b)"
proof -
  have "t \<le> now b \<and> now b < t + 600" if "(i, t) \<in> set (ripples b)" for i t
  proof -
    have "t \<le> now b" "(t + 600, i) \<in> set (timers b)"
      using assms that by (auto simp: ripple_inv_def list_all_iff)
    moreover have "now b < d" if "(d, i) \<in> set (timers b)" for d i
      using assms that by (auto simp: ripple_inv_def list_all_iff)
    ultimately show ?thesis by blast
  qed
  then show ?thesis
    by (auto simp: list_all_iff)
qed

text \<open>What one click does to the nodes attached.\<close>

lemma createRipple_ripples:
  assumes "length (ripples b) \<le> 1"
  shows "ripples (createRipple False b) = [(next_node b, now b)]"
    and "next_node (createRipple False b) = Suc (next_node b)"
  using assms
  by (cases "ripples b"; auto simp: createRipple_def Let_def remove_ripple_def)+

lemma initRipples_click_ripples:
  "ripples (initRipples_click b) = ripples b @ [(next_node b, now b)]"
  "next_node (initRipples_click b) = Suc (next_node b)"
  by (simp_all add: initRipples_click_def Let_def)

lemma controller_run_click:
  "controller_run False (evs @ [Click])
     = createRipple False ((controller_run False evs)\<lparr>clicks := clicks (controller_run False evs) @ [now (controller_run False evs)]\<rparr>)"
  by (simp add: controller_run_def)

lemma system_run_click:
  "system_run (evs @ [Click])
     = initRipples_click ((system_run evs)\<lparr>clicks := clicks (system_run evs) @ [now (system_run evs)]\<rparr>)"
  by (simp add: system_run_def)

text \<open>
  Claim C5, as amended. From a button without ripples, after any sequence of clicks and
  waits, for \<open>ButtonController\<close> (on a button without \<open>data-no-ripple\<close>) and
  for \<open>ButtonSystem\<close>, with timeouts that run when they are due: a click creates
  exactly one ripple node and attaches it to the button (for \<open>ButtonController\<close>
  in place of the ripple attached before, for \<open>ButtonSystem\<close> after the ripples
  attached before), so that the number of nodes created is the number of clicks; every
  ripple node attached was created less than 600 milliseconds ago, so a node is gone
  once it is 600 milliseconds old; with \<open>ButtonController\<close> at most one ripple
  node is attached at any time; with \<open>ButtonSystem\<close> the nodes attached are as
  many as there were clicks in the last 600 milliseconds, which no constant bounds.
\<close>

theorem ripple_nodes_are_transient:
  "next_node (controller_run False (evs @ [Click])) = Suc (next_node (controller_run False evs)) \<and>
   ripples (controller_run False (evs @ [Click]))
     = [(next_node (controller_run False evs), now (controller_run False evs))] \<and>
   next_node (system_run (evs @ [Click])) = Suc (next_node (system_run evs)) \<and>
   ripples (system_run (evs @ [Click]))
     = ripples (system_run evs) @ [(next_node (system_run evs), now (system_run evs))] \<and>
   next_node (controller_run False evs) = length (filter is_click evs) \<and>
   list_all (\<lambda>(i, t). t \<le> now (controller_run False evs) \<and> now (controller_run False evs) < t + 600)
     (ripples (controller_run False evs)) \<and>
   length (ripples (controller_run False evs)) \<le> 1 \<and>
   next_node (system_run evs) = length (filter is_click evs) \<and>
   list_all (\<lambda>(i, t). t \<le> now (system_run evs) \<and> now (system_run evs) < t + 600)
     (ripples (system_run evs)) \<and>
   length (ripples (system_run evs))
     = length (filter (\<lambda>t. now (system_run evs) < t + 600) (clicks (system_run evs)))"
proof -
  have c: "ripple_inv (controller_run False evs)" "length (ripples (controller_run False evs)) \<le> 1"
    "next_node (controller_run False evs) = length (filter is_click evs)"
    using controller_run_inv [of evs] by simp_all
  have s: "system_inv (system_run evs)" "next_node (system_run evs) = length (filter is_click evs)"
    using system_run_inv [of evs] by simp_all
  have "length (ripples ((controller_run False evs)\<lparr>clicks := clicks (controller_run False evs) @ [now (controller_run False evs)]\<rparr>)) \<le> 1"
    using c(2) by simp
  from createRipple_ripples [OF this]
  have click_c: "next_node (controller_run False (evs @ [Click])) = Suc (next_node (controller_run False evs))"
    "ripples (controller_run False (evs @ [Click]))
       = [(next_node (controller_run False evs), now (controller_run False evs))]"
    by (simp_all add: controller_run_click)
  have click_s: "next_node (system_run (evs @ [Click])) = Suc (next_node (system_run evs))"
    "ripples (system_run (evs @ [Click]))
       = ripples (system_run evs) @ [(next_node (system_run evs), now (system_run evs))]"
    by (simp_all add: system_run_click initRipples_click_ripples)
  have young_c: "list_all (\<lambda>(i, t). t \<le> now (controller_run False evs) \<and> now (controller_run False evs) < t + 600)
     (ripples (controller_run False evs))"
    using c(1) by (rule ripple_inv_young)
  have young_s: "list_all (\<lambda>(i, t). t \<le> now (system_run evs) \<and> now (system_run evs) < t + 600)
     (ripples (system_run evs))"
    using s(1) by (simp add: system_inv_def ripple_inv_young)
  have "length (ripples (system_run evs)) = length (map snd (ripples (system_run evs)))"
    by simp
  also have "\<dots> = length (filter (\<lambda>t. now (system_run evs) < t + 600) (clicks (system_run evs)))"
    using s(1) by (simp only: system_inv_def)
  finally have count_s: "length (ripples (system_run evs))
     = length (filter (\<lambda>t. now (system_run evs) < t + 600) (clicks (system_run evs)))" .
  show ?thesis
    using click_c click_s c(2,3) s(2) young_c young_s count_s by simp
qed

lemmas ripple_eval =
  controller_run_def system_run_def fresh_button_def createRipple_def initRipples_click_def
  advance_def remove_ripple_def demo_clicks_def Let_def

text \<open>
  On the example clicks, at 600 milliseconds: three nodes were created; the node of the
  first click is gone; \<open>ButtonController\<close> has the node of the last click attached,
  \<open>ButtonSystem\<close> the nodes of the two clicks at 100 milliseconds; one more click
  attaches the fourth node.
\<close>

theorem ripple_nodes_are_transient_witness:
  "length (filter is_click demo_clicks) = 3 \<and>
   now (system_run demo_clicks) = 600 \<and>
   next_node (controller_run False demo_clicks) = 3 \<and>
   ripples (controller_run False demo_clicks) = [(2, 100)] \<and>
   ripples (controller_run False (demo_clicks @ [Click])) = [(3, 600)] \<and>
   next_node (system_run demo_clicks) = 3 \<and>
   ripples (system_run demo_clicks) = [(1, 100), (2, 100)] \<and>
   ripples (system_run (demo_clicks @ [Click])) = [(1, 100), (2, 100), (3, 600)] \<and>
   clicks (system_run demo_clicks) = [0, 100, 100]"
  using ripple_nodes_are_transient [of demo_clicks]
  by (simp add: ripple_eval)

text \<open>
  Claim C5 as it is stated fails for \<open>ButtonSystem\<close>, which never removes a ripple
  before its timeout: five clicks one millisecond apart leave five ripple nodes attached
  (\<open>ButtonController\<close> has one), and no number bounds the nodes attached, since
  \<open>n\<close> clicks in a row leave \<open>n\<close> of them.
\<close>

lemma system_run_rapid: "length (ripples (system_run (replicate n Click))) = n"
proof (induction n)
  case 0
  then show ?case by (simp add: system_run_def fresh_button_def)
next
  case (Suc n)
  have "replicate (Suc n) Click = replicate n Click @ [Click]"
    by (simp add: replicate_append_same)
  then have "ripples (system_run (replicate (Suc n) Click))
      = ripples (system_run (replicate n Click))
        @ [(next_node (system_run (replicate n Click)), now (system_run (replicate n Click)))]"
    by (simp only: system_run_click initRipples_click_ripples) simp
  with Suc show ?case by simp
qed

theorem rapid_clicks_counterexample:
  "length (ripples (system_run [Click, Wait 1, Click, Wait 1, Click, Wait 1, Click, Wait 1, Click])) = 5 \<and>
   length (ripples (controller_run False [Click, Wait 1, Click, Wait 1, Click, Wait 1, Click, Wait 1, Click])) = 1 \<and>
   \<not> (\<exists>N. \<forall>evs. length (ripples (system_run evs)) \<le> N)"
proof -
  have "\<not> (\<exists>N. \<forall>evs. length (ripples (system_run evs)) \<le> N)"
  proof
    assume "\<exists>N. \<forall>evs. length (ripples (system_run evs)) \<le> N"
    then obtain N where "\<forall>evs. length (ripples (system_run evs)) \<le> N" ..
    then have "length (ripples (system_run (replicate (Suc N) Click))) \<le> N" ..
    then show False
      unfolding system_run_rapid by simp
  qed
  then show ?thesis
    by (simp add: system_run_def controller_run_def fresh_button_def createRipple_def
        initRipples_click_def advance_def remove_ripple_def Let_def)
qed

section \<open>Properties of the cookie consent\<close>

lemma sublist_prepend:
  assumes "sublist p ys"
  shows "sublist p (zs @ ys)"
proof -
  obtain ps ss where "ys = ps @ p @ ss"
    using assms by (auto simp: sublist_def)
  then have "zs @ ys = (zs @ ps) @ p @ ss"
    by simp
  then show ?thesis
    unfolding sublist_def by blast
qed

lemma sublist_join_pairs:
  assumes "p \<in> set ps"
  shows "sublist p (join_pairs ps)"
  using assms
proof (induction ps rule: join_pairs.induct)
  case 1
  then show ?case by simp
next
  case (2 q)
  then show ?case by simp
next
  case (3 q r ps)
  show ?case
  proof (cases "p = q")
    case True
    then show ?thesis by simp
  next
    case False
    with 3 have "sublist p (join_pairs (r # ps))"
      by simp
    then have "sublist p ((q @ ''; '') @ join_pairs (r # ps))"
      by (rule sublist_prepend)
    then show ?thesis by simp
  qed
qed


text \<open>
  A cookie of the site that has not expired shows in \<open>document.cookie\<close>, and the
  consent cookie stays where cookies of other names are stored.
\<close>

lemma cookie_in_document_cookie:
  assumes "c \<in> set cookies" "t < expires c"
  shows "sublist (cookie_name c @ ''='' @ cookie_value c) (document_cookie cookies t)"
  using assms unfolding document_cookie_def
  by (intro sublist_join_pairs) auto

lemma store_cookie_keeps:
  assumes "c \<in> set cookies" "cookie_name d \<noteq> cookie_name c"
  shows "c \<in> set (store_cookie d cookies)"
  using assms by (simp add: store_cookie_def)

lemma fold_store_cookie_keeps:
  assumes "c \<in> set cookies" "\<forall>d\<in>set others. cookie_name d \<noteq> cookie_name c"
  shows "c \<in> set (fold store_cookie others cookies)"
  using assms
proof (induction others arbitrary: cookies)
  case Nil
  then show ?case by simp
next
  case (Cons d others)
  then have "c \<in> set (store_cookie d cookies)"
    by (simp add: store_cookie_keeps)
  with Cons show ?case by simp
qed

text \<open>
  Claim C6. After \<open>accept\<close> at the moment \<open>t\<close>, whatever cookies the page had
  before and whatever cookies of other names are stored afterwards, a page load at a
  moment \<open>t'\<close> within the expiry window of the cookie has consent, and the
  constructor leaves the page without a banner. The window ends with the expiry that
  \<open>setCookie\<close> writes: 365 days after \<open>t\<close>, in whole seconds, which is less
  than a second before the 365 days are over.
\<close>

theorem no_banner_after_accept:
  assumes "\<forall>d\<in>set others. cookie_name d \<noteq> cookieName"
    and "t' < toUTCString (t + 365 * 24 * 60 * 60 * 1000)"
  shows "hasConsent (fold store_cookie others (jar (accept t pg))) t' \<and>
         CookieConsent_new t' (page_load (fold store_cookie others (jar (accept t pg))))
           = page_load (fold store_cookie others (jar (accept t pg))) \<and>
         banners (CookieConsent_new t' (page_load (fold store_cookie others (jar (accept t pg))))) = 0"
proof -
  define c where "c = \<lparr>cookie_name = cookieName, cookie_value = ''true'',
      expires = toUTCString (t + cookieExpiry * 24 * 60 * 60 * 1000)\<rparr>"
  have "c \<in> set (jar (accept t pg))"
    by (simp add: accept_def hideBanner_def setCookie_def store_cookie_def c_def)
  moreover have "\<forall>d\<in>set others. cookie_name d \<noteq> cookie_name c"
    using assms(1) by (simp add: c_def)
  ultimately have "c \<in> set (fold store_cookie others (jar (accept t pg)))"
    by (rule fold_store_cookie_keeps)
  moreover have "t' < expires c"
    using assms(2) by (simp add: c_def cookieExpiry_def)
  ultimately have "sublist (cookie_name c @ ''='' @ cookie_value c)
      (document_cookie (fold store_cookie others (jar (accept t pg))) t')"
    by (rule cookie_in_document_cookie)
  then have h: "hasConsent (fold store_cookie others (jar (accept t pg))) t'"
    by (simp add: hasConsent_def c_def)
  then show ?thesis
    by (simp add: CookieConsent_new_def page_load_def)
qed

text \<open>
  On the example: consent given at the moment 1500 on a page with one banner, so that
  the cookie expires at 31536001000; another cookie stored afterwards; a page load one
  millisecond before the expiry shows no banner.
\<close>

theorem no_banner_after_accept_witness:
  "cookie_name demo_other \<noteq> cookieName \<and>
   toUTCString (1500 + 365 * 24 * 60 * 60 * 1000) = 31536001000 \<and>
   document_cookie (fold store_cookie [demo_other] (jar (accept 1500 \<lparr>banners = 1, jar = demo_jar\<rparr>)))
     31536000999 = ''112energie_consent=true; theme=dark'' \<and>
   hasConsent (fold store_cookie [demo_other] (jar (accept 1500 \<lparr>banners = 1, jar = demo_jar\<rparr>)))
     31536000999 \<and>
   banners (CookieConsent_new 31536000999
     (page_load (fold store_cookie [demo_other] (jar (accept 1500 \<lparr>banners = 1, jar = demo_jar\<rparr>))))) = 0"
proof -
  have a: "\<forall>d\<in>set [demo_other]. cookie_name d \<noteq> cookieName"
    by (simp add: demo_other_def cookieName_def)
  have e: "toUTCString (1500 + 365 * 24 * 60 * 60 * 1000) = 31536001000"
    by (simp add: toUTCString_def)
  have b: "(31536000999 :: nat) < toUTCString (1500 + 365 * 24 * 60 * 60 * 1000)"
    unfolding e by simp
  have c: "document_cookie (fold store_cookie [demo_other] (jar (accept 1500 \<lparr>banners = 1, jar = demo_jar\<rparr>)))
     31536000999 = ''112energie_consent=true; theme=dark''"
    by (simp add: document_cookie_def store_cookie_def accept_def hideBanner_def setCookie_def
        demo_jar_def demo_other_def cookieName_def cookieExpiry_def toUTCString_def)
  show ?thesis
    using no_banner_after_accept [OF a b, of "\<lparr>banners = 1, jar = demo_jar\<rparr>"] a c e
    by (simp add: page_load_def)
qed

text \<open>
  The end of the window on the same example: 200 milliseconds after the expiry, which
  is still 300 milliseconds short of 365 days after the consent, the cookie is gone and
  the banner is back.
\<close>

lemma banner_back_at_expiry:
  "31536001200 < (1500 + 365 * 24 * 60 * 60 * 1000 :: nat) \<and>
   document_cookie (jar (accept 1500 \<lparr>banners = 1, jar = demo_jar\<rparr>)) 31536001200 = [] \<and>
   banners (CookieConsent_new 31536001200
     (page_load (jar (accept 1500 \<lparr>banners = 1, jar = demo_jar\<rparr>)))) = 1"
  by (simp add: CookieConsent_new_def hasConsent_def showBanner_def page_load_def
      document_cookie_def store_cookie_def accept_def hideBanner_def setCookie_def
      demo_jar_def cookieName_def cookieExpiry_def toUTCString_def)

text \<open>
  A page load that is at least a second short of the 365 days is inside the window.
\<close>

lemma second_before_full_year:
  assumes "t' + 1000 \<le> t + 365 * 24 * 60 * 60 * 1000"
  shows "t' < toUTCString (t + 365 * 24 * 60 * 60 * 1000)"
proof -
  have "n < (n + 1000) div 1000 * 1000" for n :: nat
  proof -
    define q where "q = n div 1000"
    define r where "r = n mod 1000"
    have n: "n = q * 1000 + r"
      by (simp add: q_def r_def)
    have r: "r < 1000"
      by (simp add: r_def)
    have "(n + 1000) div 1000 = q + 1"
      by (simp add: q_def)
    then have "(n + 1000) div 1000 * 1000 = q * 1000 + 1000"
      by simp
    with n r show ?thesis
      by linarith
  qed
  then have "t' < toUTCString (t' + 1000)"
    by (simp add: toUTCString_def)
  also have "\<dots> \<le> toUTCString (t + 365 * 24 * 60 * 60 * 1000)"
    unfolding toUTCString_def using assms by (intro mult_right_mono div_le_mono) simp_all
  finally show ?thesis .
qed

section \<open>Properties of the energy calculators\<close>

lemma parseInt_examples:
  "parseInt ''2'' = Num 2" "parseInt ''2800'' = Num 2800" "parseInt ''1200'' = Num 1200"
  "parseInt '' -12px'' = Num (- 12)" "parseInt ''0x1F'' = Num 31" "parseInt ''abc'' = NaN"
  by (simp_all add: parseInt_def is_space_def digit_of_def Let_def)

lemma floor_examples:
  "\<lfloor>(3060 / 12 :: real) + 1 / 2\<rfloor> = 255"
  "\<lfloor>(2468 / 12 :: real) + 1 / 2\<rfloor> = 206"
  "\<lfloor>(2980 / 12 :: real) + 1 / 2\<rfloor> = 248"
  by (simp_all add: floor_eq_iff)

lemmas calc_eval =
  calculate_def calculateEnergyCosts_def enhanced_calculate_def gatherData_def
  consumption_def homeTypeMultiplier_def homeMultipliers_def rate_electricity_def rate_gas_def
  rate_solarDiscount_def parseInt_or_def value_or_def checked_or_false_def parseInt_examples
  demo_form_def demo_calc_page_def stale_calc_page_def Let_def

lemma calculateEnergyCosts_form:
  "calculateEnergyCosts pg = Inr pg1 \<Longrightarrow> form pg1 = form pg"
  by (auto simp: calculateEnergyCosts_def Let_def split: option.splits)

text \<open>
  Claim C4. Each of the three calculators is a function of the form alone: on two pages
  with the same form, whatever else the pages show and whatever an earlier run has left
  in the calculator, \<open>calculate\<close> returns the same results, \<open>calculateEnergyCosts\<close>
  fails on both or shows the same monthly, yearly and savings amounts, and the enhanced
  \<open>calculate\<close> returns the same results; and a second evaluation after the first
  gives what the first gave.
\<close>

theorem calculators_deterministic:
  assumes "form pg' = form pg"
  shows "calculate pg' = calculate pg \<and>
         map_sum id monthlyAmount_text (calculateEnergyCosts pg')
           = map_sum id monthlyAmount_text (calculateEnergyCosts pg) \<and>
         map_sum id yearlyAmount_text (calculateEnergyCosts pg')
           = map_sum id yearlyAmount_text (calculateEnergyCosts pg) \<and>
         map_sum id savingsAmount_text (calculateEnergyCosts pg')
           = map_sum id savingsAmount_text (calculateEnergyCosts pg) \<and>
         (\<forall>pg1. calculateEnergyCosts pg = Inr pg1 \<longrightarrow> calculateEnergyCosts pg1 = Inr pg1) \<and>
         fst (enhanced_calculate pg' this') = fst (enhanced_calculate pg this) \<and>
         fst (enhanced_calculate pg (snd (enhanced_calculate pg this)))
           = fst (enhanced_calculate pg this)"
proof -
  have a: "calculate pg' = calculate pg"
    using assms by (simp add: calculate_def)
  have b: "map_sum id monthlyAmount_text (calculateEnergyCosts pg')
           = map_sum id monthlyAmount_text (calculateEnergyCosts pg)"
    "map_sum id yearlyAmount_text (calculateEnergyCosts pg')
           = map_sum id yearlyAmount_text (calculateEnergyCosts pg)"
    "map_sum id savingsAmount_text (calculateEnergyCosts pg')
           = map_sum id savingsAmount_text (calculateEnergyCosts pg)"
    using assms by (auto simp: calculateEnergyCosts_def Let_def split: option.splits)
  have c: "calculateEnergyCosts pg1 = Inr pg1" if "calculateEnergyCosts pg = Inr pg1" for pg1
    using that by (auto simp: calculateEnergyCosts_def Let_def split: option.splits)
  have d: "gatherData pg' = gatherData pg"
    using assms by (simp add: gatherData_def)
  have e: "fst (enhanced_calculate pg' this') = fst (enhanced_calculate pg this)"
    by (simp add: enhanced_calculate_def Let_def d)
  have f: "fst (enhanced_calculate pg (snd (enhanced_calculate pg this)))
           = fst (enhanced_calculate pg this)"
    by (simp add: enhanced_calculate_def Let_def)
  show ?thesis
    using a b c e f by blast
qed

text \<open>
  On the example form, on the empty page and on the page with stale numbers: the three
  calculators give 255, 206 and 248 a month, each on both pages.
\<close>

theorem calculators_deterministic_witness:
  "form stale_calc_page = form demo_calc_page \<and>
   calculate stale_calc_page = calculate demo_calc_page \<and>
   calculate demo_calc_page = Inr \<lparr>r_power = Num 2800, r_gas = Num 1200, r_monthly = Num 255\<rparr> \<and>
   map_sum id monthlyAmount_text (calculateEnergyCosts stale_calc_page)
     = map_sum id monthlyAmount_text (calculateEnergyCosts demo_calc_page) \<and>
   map_sum id monthlyAmount_text (calculateEnergyCosts demo_calc_page) = Inr (Some (Num 206)) \<and>
   monthlyAmount (fst (enhanced_calculate stale_calc_page \<lparr>results = None\<rparr>))
     = monthlyAmount (fst (enhanced_calculate demo_calc_page \<lparr>results = None\<rparr>)) \<and>
   monthlyAmount (fst (enhanced_calculate demo_calc_page \<lparr>results = None\<rparr>)) = Num 248"
proof -
  have a: "form stale_calc_page = form demo_calc_page"
    by (simp add: stale_calc_page_def demo_calc_page_def)
  have b: "calculate demo_calc_page = Inr \<lparr>r_power = Num 2800, r_gas = Num 1200, r_monthly = Num 255\<rparr>"
    by (simp add: calc_eval floor_eq_iff)
  have c: "map_sum id monthlyAmount_text (calculateEnergyCosts demo_calc_page) = Inr (Some (Num 206))"
    by (simp add: calc_eval floor_eq_iff)
  have d: "monthlyAmount (fst (enhanced_calculate demo_calc_page \<lparr>results = None\<rparr>)) = Num 248"
    by (simp add: calc_eval floor_eq_iff)
  show ?thesis
    using calculators_deterministic [OF a, of "\<lparr>results = None\<rparr>" "\<lparr>results = None\<rparr>"] a b c d
    by simp
qed

end
